theory Spec2Isabelle
  imports Main
begin

section \<open>Solidity values, errors and events\<close>

text \<open>
  The vault is the contract \<^verbatim>\<open>AstherusVault\<close> of \<^verbatim>\<open>src/contract.sol\<close> (Solidity 0.8.25).
  Addresses, 32-byte words and unsigned integers are natural numbers; every arithmetic
  operation of the contract is checked, so an operation whose result leaves the range of
  its type aborts the call with \<open>Panic 17\<close> (Solidity's panic code 0x11).
\<close>

type_synonym address = nat
type_synonym bytes32 = nat
type_synonym bytes = "nat list"

definition MAX_UINT256 :: nat where
  "MAX_UINT256 = 2 ^ 256 - 1"

definition MAX_UINT8 :: nat where
  "MAX_UINT8 = 255"

definition USD_DECIMALS :: nat where
  "USD_DECIMALS = 8"

datatype role = ADMIN_ROLE | PAUSE_ROLE | OPERATE_ROLE | TOKEN_ROLE | DEPOSIT_ROLE

text \<open>
  The custom errors of the contract, \<open>Error msg\<close> for a failed \<^verbatim>\<open>require(cond, msg)\<close>,
  \<open>Panic\<close> for checked arithmetic, the errors of the inherited pause, access-control and
  re-entrancy guards, and the failures of the external calls (native send, token transfer).
\<close>

datatype error =
    ZeroAddress
  | ZeroAmount
  | TokenAlreadyExist
  | CurrencyNotSupport address
  | ValueNotZero
  | LowerThanExpected nat nat
  | AmountIllegal nat nat
  | AlreadyWithdraw nat
  | UserAlreadyWithdraw bytes32
  | FeeExceeds nat nat
  | CurrencyNameNotSupport address bytes32
  | PriceDecimalsMismatch nat nat
  | Error string
  | Panic nat
  | EnforcedPause
  | ExpectedPause
  | AccessControlUnauthorizedAccount address role
  | ReentrancyGuardReentrantCall
  | InsufficientBalance nat nat
  | SafeERC20FailedOperation address

datatype event =
    ReceiveETH address address nat
  | Deposit address address bool nat nat
  | WithdrawPaused address address nat nat
  | Withdraw nat address address nat nat
  | WithdrawFee address nat address
  | WithdrawCanceled nat bytes32
  | UpdateHourlyLimit nat nat
  | AddToken address address bool
  | RemoveToken address
  | ValidatorAdd bytes32 nat nat
  | ValidatorRemove bytes32 nat
  | TokenHashChanged address bytes32
  | Paused address
  | Unpaused address

subsection \<open>Checked arithmetic\<close>

definition checked_add :: "nat \<Rightarrow> nat \<Rightarrow> error + nat" where
  "checked_add a b = (if a + b \<le> MAX_UINT256 then Inr (a + b) else Inl (Panic 17))"

definition checked_sub :: "nat \<Rightarrow> nat \<Rightarrow> error + nat" where
  "checked_sub a b = (if b \<le> a then Inr (a - b) else Inl (Panic 17))"

definition checked_mul :: "nat \<Rightarrow> nat \<Rightarrow> error + nat" where
  "checked_mul a b = (if a * b \<le> MAX_UINT256 then Inr (a * b) else Inl (Panic 17))"

definition checked_exp :: "nat \<Rightarrow> nat \<Rightarrow> error + nat" where
  "checked_exp b k = (if b ^ k \<le> MAX_UINT256 then Inr (b ^ k) else Inl (Panic 17))"

definition checked_add_uint8 :: "nat \<Rightarrow> nat \<Rightarrow> error + nat" where
  "checked_add_uint8 a b = (if a + b \<le> MAX_UINT8 then Inr (a + b) else Inl (Panic 17))"

section \<open>Data model\<close>

record Token =
  currency :: address
  priceFeed :: address
  price :: nat
  fixedPrice :: bool
  priceDecimals :: nat
  currencyDecimals :: nat

record ValidatorInfo =
  signer :: address
  power_v :: nat

record WithdrawAction =
  token :: address
  amount :: nat
  fee :: nat
  receiver :: address

text \<open>
  The three structs of the external withdraw validator's interface, with the fields the
  vault reads; the signatures are opaque to the vault.
\<close>

record UserRequestInfo =
  req_amount :: nat
  req_fee :: nat
  req_receiver :: address

record BusinessInfo =
  withdrawId :: nat
  decimals :: nat
  tokenNameHash :: bytes32

type_synonym SignatureInfo = "bytes list"

definition no_token :: Token where
  "no_token = \<lparr>currency = 0, priceFeed = 0, price = 0, fixedPrice = False,
     priceDecimals = 0, currencyDecimals = 0\<rparr>"

text \<open>
  The storage of the vault (the pause flag and the re-entrancy status of the inherited
  guards included), together with what the vault holds and has done outside its storage:
  \<open>custody c\<close> is the vault's balance of currency \<open>c\<close> (its native balance under the
  \<open>NATIVE\<close> key), \<open>transfers\<close> the outbound pushes (receiver, currency, amount) and
  \<open>events\<close> the emitted events, oldest first. A reverted call leaves none of them.
\<close>

record vault =
  paused :: bool
  entered :: bool
  hourlyLimit :: nat
  supportToken :: "address \<Rightarrow> Token"
  withdrawHistory :: "nat \<Rightarrow> nat"
  withdrawPerHours :: "nat \<Rightarrow> nat"
  availableValidators :: "bytes32 \<Rightarrow> nat"
  fees :: "address \<Rightarrow> nat"
  tokenHashMap :: "address \<Rightarrow> bytes32"
  userWithdrawHistory :: "bytes32 \<Rightarrow> nat"
  custody :: "address \<Rightarrow> nat"
  transfers :: "(address \<times> address \<times> nat) list"
  events :: "event list"

text \<open>
  Modelled from the spec: the collaborators of section 6, which the vault only consumes
  and whose code is outside the repository. They are fields of the context of one call,
  next to the caller and the block: the capability authority (\<open>hasRole\<close>), the hash
  functions, the signature recovery primitive (\<open>recover\<close> yields the signer, or the null
  address for an invalid signature, the case the vault's loop skips), the price oracle,
  the token's pull (\<open>safeTransferFrom e c from amt before\<close> is the vault's balance of
  \<open>c\<close> after the pull, \<open>None\<close> when the token call fails) and the external withdraw
  validator (\<open>withdrawCheck\<close> yields the user digest or fails).
\<close>

record env =
  msg_sender :: address
  msg_value :: nat
  block_number :: nat
  block_timestamp :: nat
  NATIVE :: address
  vault_address :: address
  hasRole :: "role \<Rightarrow> address \<Rightarrow> bool"
  validatorsHash :: "ValidatorInfo list \<Rightarrow> bytes32"
  nameHash :: "string \<Rightarrow> bytes32"
  withdrawDigest :: "nat \<Rightarrow> WithdrawAction \<Rightarrow> bytes32"
  toEthSignedMessageHash :: "bytes32 \<Rightarrow> bytes32"
  recover :: "bytes32 \<Rightarrow> bytes \<Rightarrow> address"
  oracle_decimals :: "address \<Rightarrow> nat"
  latestRoundData :: "address \<Rightarrow> int"
  safeTransferFrom :: "address \<Rightarrow> address \<Rightarrow> nat \<Rightarrow> nat \<Rightarrow> nat option"
  withdrawCheck :: "UserRequestInfo \<Rightarrow> BusinessInfo \<Rightarrow> SignatureInfo \<Rightarrow> error + bytes32"

definition emit :: "event \<Rightarrow> vault \<Rightarrow> vault" where
  "emit ev s = s\<lparr>events := events s @ [ev]\<rparr>"

text \<open>A reverted call changes nothing: the state after a call is the old one on failure.\<close>

definition state_after :: "vault \<Rightarrow> error + vault \<Rightarrow> vault" where
  "state_after s r = (case r of Inl err \<Rightarrow> s | Inr s' \<Rightarrow> s')"

section \<open>Entry guards\<close>

definition whenNotPaused :: "vault \<Rightarrow> error + 'a \<Rightarrow> error + 'a" where
  "whenNotPaused s k = (if paused s then Inl EnforcedPause else k)"

definition onlyRole :: "env \<Rightarrow> role \<Rightarrow> error + 'a \<Rightarrow> error + 'a" where
  "onlyRole e r k =
     (if hasRole e r (msg_sender e) then k
      else Inl (AccessControlUnauthorizedAccount (msg_sender e) r))"

definition nonReentrant :: "vault \<Rightarrow> (vault \<Rightarrow> error + vault) \<Rightarrow> error + vault" where
  "nonReentrant s body =
     (if entered s then Inl ReentrancyGuardReentrantCall
      else (case body (s\<lparr>entered := True\<rparr>) of
              Inl err \<Rightarrow> Inl err
            | Inr s' \<Rightarrow> Inr (s'\<lparr>entered := False\<rparr>)))"

definition pause_internal :: "env \<Rightarrow> vault \<Rightarrow> error + vault" where
  "pause_internal e s =
     (if paused s then Inl EnforcedPause
      else Inr (emit (Paused (msg_sender e)) (s\<lparr>paused := True\<rparr>)))"

definition unpause_internal :: "env \<Rightarrow> vault \<Rightarrow> error + vault" where
  "unpause_internal e s =
     (if \<not> paused s then Inl ExpectedPause
      else Inr (emit (Unpaused (msg_sender e)) (s\<lparr>paused := False\<rparr>)))"

definition pause :: "env \<Rightarrow> vault \<Rightarrow> error + vault" where
  "pause e s = onlyRole e PAUSE_ROLE (pause_internal e s)"

definition unpause :: "env \<Rightarrow> vault \<Rightarrow> error + vault" where
  "unpause e s = onlyRole e PAUSE_ROLE (unpause_internal e s)"

definition updateHourlyLimit :: "env \<Rightarrow> vault \<Rightarrow> nat \<Rightarrow> error + vault" where
  "updateHourlyLimit e s newHourlyLimit =
     onlyRole e ADMIN_ROLE
       (if newHourlyLimit = 0 then Inl ZeroAmount
        else Inr (emit (UpdateHourlyLimit (hourlyLimit s) newHourlyLimit)
                    (s\<lparr>hourlyLimit := newHourlyLimit\<rparr>)))"

section \<open>Validator registry and signature verification\<close>

fun addValidator_loop :: "ValidatorInfo list \<Rightarrow> nat \<Rightarrow> address \<Rightarrow> error + nat" where
  "addValidator_loop [] totalPower lastValidator = Inr totalPower"
| "addValidator_loop (v # vs) totalPower lastValidator =
     (if signer v > lastValidator then
        (case checked_add totalPower (power_v v) of
           Inl err \<Rightarrow> Inl err
         | Inr totalPower' \<Rightarrow> addValidator_loop vs totalPower' (signer v))
      else Inl (Error ''validator not ordered''))"

definition addValidator :: "env \<Rightarrow> vault \<Rightarrow> ValidatorInfo list \<Rightarrow> error + vault" where
  "addValidator e s validators =
     onlyRole e ADMIN_ROLE
       (let validatorHash = validatorsHash e validators in
        if availableValidators s validatorHash \<noteq> 0 then Inl (Error ''already set'')
        else (case addValidator_loop validators 0 0 of
                Inl err \<Rightarrow> Inl err
              | Inr totalPower \<Rightarrow>
                  Inr (emit (ValidatorAdd validatorHash (length validators) totalPower)
                         (s\<lparr>availableValidators :=
                              (availableValidators s)(validatorHash := totalPower)\<rparr>))))"

definition removeValidator :: "env \<Rightarrow> vault \<Rightarrow> ValidatorInfo list \<Rightarrow> error + vault" where
  "removeValidator e s validators =
     onlyRole e ADMIN_ROLE
       (let validatorHash = validatorsHash e validators in
        if availableValidators s validatorHash = 0 then Inl (Error ''not set'')
        else Inr (emit (ValidatorRemove validatorHash (length validators))
                    (s\<lparr>availableValidators :=
                         (availableValidators s)(validatorHash := 0)\<rparr>)))"

text \<open>
  The inner \<^verbatim>\<open>while\<close> of \<^verbatim>\<open>verifyValidatorSignature\<close>: advance the cursor until the
  recovered signer is found (adding its power) or the validators are exhausted. It
  returns the new cursor and the new accumulated power.
\<close>

function find_signer ::
  "ValidatorInfo list \<Rightarrow> nat \<Rightarrow> address \<Rightarrow> nat \<Rightarrow> error + (nat \<times> nat)" where
  "find_signer validators validatorIndex rec pw =
     (if validatorIndex < length validators then
        (if signer (validators ! validatorIndex) = rec then
           (case checked_add pw (power_v (validators ! (validatorIndex + 1 - 1))) of
              Inl err \<Rightarrow> Inl err
            | Inr pw' \<Rightarrow> Inr (validatorIndex + 1, pw'))
         else find_signer validators (validatorIndex + 1) rec pw)
      else Inr (validatorIndex, pw))"
  by pat_completeness auto
termination
  by (relation "measure (\<lambda>(validators, validatorIndex, rec, pw). length validators - validatorIndex)")
     auto

declare find_signer.simps [simp del]

text \<open>
  The outer \<^verbatim>\<open>for\<close> over the signatures: it stops when the signatures or the validators
  are exhausted, and skips a signature that recovers to the null address.
\<close>

fun tally_power ::
  "env \<Rightarrow> ValidatorInfo list \<Rightarrow> bytes32 \<Rightarrow> bytes list \<Rightarrow> nat \<Rightarrow> nat \<Rightarrow> error + nat" where
  "tally_power e validators validatorDigest [] validatorIndex pw = Inr pw"
| "tally_power e validators validatorDigest (sg # sgs) validatorIndex pw =
     (if validatorIndex < length validators then
        (if recover e validatorDigest sg = 0 then
           tally_power e validators validatorDigest sgs validatorIndex pw
         else (case find_signer validators validatorIndex (recover e validatorDigest sg) pw of
                 Inl err \<Rightarrow> Inl err
               | Inr (validatorIndex', pw') \<Rightarrow>
                   tally_power e validators validatorDigest sgs validatorIndex' pw'))
      else Inr pw)"

definition verifyValidatorSignature ::
  "env \<Rightarrow> vault \<Rightarrow> ValidatorInfo list \<Rightarrow> bytes32 \<Rightarrow> bytes list \<Rightarrow> error + unit" where
  "verifyValidatorSignature e s validators digest validatorSignatures =
     (let totalPower = availableValidators s (validatorsHash e validators) in
      if \<not> totalPower > 0 then Inl (Error ''validator illegal'')
      else (case tally_power e validators (toEthSignedMessageHash e digest)
                   validatorSignatures 0 0 of
              Inl err \<Rightarrow> Inl err
            | Inr pw \<Rightarrow>
                (case checked_mul totalPower 2 of
                   Inl err \<Rightarrow> Inl err
                 | Inr doubled \<Rightarrow>
                     if pw \<ge> doubled div 3 then Inr ()
                     else Inl (Error ''validator signature illegal''))))"

subsection \<open>The matched power in the words of the spec\<close>

text \<open>
  Section 4.2 of the spec describes the accumulated power without the loop's indices:
  recover a signer from each signature, skipping a failed recovery; walk the ordered
  validator list once, advancing a cursor, and accumulate the power of each validator
  matched against a recovered signer, a signer matching at most one validator and each
  validator being matched at most once; stop once the validators are exhausted.
  \<open>recovered_signers\<close> are the signers recovered in the order of the signatures, and
  \<open>spec_matched_power\<close> walks the validators still ahead of the cursor: for each signer
  it moves to the first validator ahead with that identity, counts its power and goes on
  behind it; a signer with no validator ahead exhausts the list. It is compared with the
  loops of the contract below.
\<close>

definition recovered_signers :: "env \<Rightarrow> bytes32 \<Rightarrow> bytes list \<Rightarrow> address list" where
  "recovered_signers e validatorDigest sigs =
     filter (\<lambda>a. a \<noteq> 0) (map (recover e validatorDigest) sigs)"

fun spec_matched_power :: "address list \<Rightarrow> ValidatorInfo list \<Rightarrow> nat" where
  "spec_matched_power [] vs = 0"
| "spec_matched_power (r # rs) vs =
     (case dropWhile (\<lambda>v. signer v \<noteq> r) vs of
        [] \<Rightarrow> 0
      | v # rest \<Rightarrow> power_v v + spec_matched_power rs rest)"

section \<open>Token registry\<close>

definition supportCurrency :: "vault \<Rightarrow> address \<Rightarrow> bool" where
  "supportCurrency s cur = (currency (supportToken s cur) \<noteq> 0)"

definition addToken ::
  "env \<Rightarrow> vault \<Rightarrow> address \<Rightarrow> address \<Rightarrow> nat \<Rightarrow> bool \<Rightarrow> nat \<Rightarrow> nat \<Rightarrow> error + vault" where
  "addToken e s cur feed prc fixed pDecimals cDecimals =
     onlyRole e TOKEN_ROLE
       (if cur = 0 then Inl ZeroAddress
        else if currency (supportToken s cur) \<noteq> 0 then Inl TokenAlreadyExist
        else
          (let tk = (supportToken s cur)\<lparr>currency := cur, fixedPrice := fixed,
                      priceDecimals := pDecimals, currencyDecimals := cDecimals\<rparr>
           in if fixed then
                Inr (emit (AddToken cur feed fixed)
                       (s\<lparr>supportToken := (supportToken s)(cur := tk\<lparr>price := prc\<rparr>)\<rparr>))
              else if feed = 0 then Inl ZeroAddress
              else if oracle_decimals e feed \<noteq> pDecimals then
                Inl (PriceDecimalsMismatch pDecimals (oracle_decimals e feed))
              else
                Inr (emit (AddToken cur feed fixed)
                       (s\<lparr>supportToken := (supportToken s)(cur := tk\<lparr>priceFeed := feed\<rparr>)\<rparr>))))"

definition addToken_named ::
  "env \<Rightarrow> vault \<Rightarrow> address \<Rightarrow> address \<Rightarrow> nat \<Rightarrow> bool \<Rightarrow> nat \<Rightarrow> nat \<Rightarrow> string
     \<Rightarrow> error + vault" where
  "addToken_named e s cur feed prc fixed pDecimals cDecimals tokenName =
     onlyRole e TOKEN_ROLE
       (case addToken e s cur feed prc fixed pDecimals cDecimals of
          Inl err \<Rightarrow> Inl err
        | Inr s1 \<Rightarrow>
            Inr (emit (TokenHashChanged cur (nameHash e tokenName))
                   (s1\<lparr>tokenHashMap := (tokenHashMap s1)(cur := nameHash e tokenName)\<rparr>)))"

definition removeToken :: "env \<Rightarrow> vault \<Rightarrow> address \<Rightarrow> error + vault" where
  "removeToken e s cur =
     onlyRole e ADMIN_ROLE
       (if cur = 0 then Inl ZeroAddress
        else Inr (emit (RemoveToken cur)
                    (s\<lparr>supportToken := (supportToken s)(cur := no_token)\<rparr>)))"

definition setTokenHash :: "env \<Rightarrow> vault \<Rightarrow> address \<Rightarrow> string \<Rightarrow> error + vault" where
  "setTokenHash e s tokenAddress tokenName =
     onlyRole e ADMIN_ROLE
       (if currency (supportToken s tokenAddress) = 0 then Inl (CurrencyNotSupport tokenAddress)
        else Inr (emit (TokenHashChanged tokenAddress (nameHash e tokenName))
                    (s\<lparr>tokenHashMap :=
                         (tokenHashMap s)(tokenAddress := nameHash e tokenName)\<rparr>)))"

section \<open>Value transfer\<close>

text \<open>
  Modelled from the spec: the value transfer adapter's push (section 6: it moves the
  amount out of custody and must fail loudly on insufficient custody balance). The token
  contracts and the native send are collaborators outside the repository; \<open>sendValue\<close>
  is the native send, \<open>safeTransfer\<close> the token transfer.
\<close>

definition sendValue :: "env \<Rightarrow> vault \<Rightarrow> address \<Rightarrow> nat \<Rightarrow> error + vault" where
  "sendValue e s rcv amt =
     (if custody s (NATIVE e) < amt then Inl (InsufficientBalance (custody s (NATIVE e)) amt)
      else Inr (s\<lparr>custody := (custody s)(NATIVE e := custody s (NATIVE e) - amt),
                  transfers := transfers s @ [(rcv, NATIVE e, amt)]\<rparr>))"

definition safeTransfer :: "vault \<Rightarrow> address \<Rightarrow> address \<Rightarrow> nat \<Rightarrow> error + vault" where
  "safeTransfer s cur rcv amt =
     (if custody s cur < amt then Inl (SafeERC20FailedOperation cur)
      else Inr (s\<lparr>custody := (custody s)(cur := custody s cur - amt),
                  transfers := transfers s @ [(rcv, cur, amt)]\<rparr>))"

text \<open>
  The two private overloads of \<^verbatim>\<open>_transfer\<close>: \<open>transfer_amount\<close> is
  \<^verbatim>\<open>_transfer(to, isNative, currency, amount)\<close>, used by the fee collection, and
  \<open>transfer_with_fee\<close> is \<^verbatim>\<open>_transfer(to, currency, amount, fee)\<close>, the payout helper
  of the withdrawals.
\<close>

definition transfer_amount ::
  "env \<Rightarrow> vault \<Rightarrow> address \<Rightarrow> bool \<Rightarrow> address \<Rightarrow> nat \<Rightarrow> error + vault" where
  "transfer_amount e s rcv isNative cur amt =
     (if rcv = 0 then Inl ZeroAddress
      else if amt = 0 then Inl ZeroAmount
      else if isNative then sendValue e s rcv amt
      else if \<not> custody s cur \<ge> amt then Inl (Error ''not enough currency balance'')
      else safeTransfer s cur rcv amt)"

definition transfer_with_fee ::
  "env \<Rightarrow> vault \<Rightarrow> address \<Rightarrow> address \<Rightarrow> nat \<Rightarrow> nat \<Rightarrow> error + vault" where
  "transfer_with_fee e s rcv cur amt fe =
     (if rcv = 0 then Inl ZeroAddress
      else (case checked_add (fees s cur) fe of
              Inl err \<Rightarrow> Inl err
            | Inr newFees \<Rightarrow>
                (let s1 = s\<lparr>fees := (fees s)(cur := newFees)\<rparr> in
                 case checked_sub amt fe of
                   Inl err \<Rightarrow> Inl err
                 | Inr remain \<Rightarrow>
                     if cur = NATIVE e then sendValue e s1 rcv remain
                     else safeTransfer s1 cur rcv remain)))"

section \<open>Fee collection\<close>

fun withdrawFee_loop ::
  "env \<Rightarrow> vault \<Rightarrow> (address \<times> nat) list \<Rightarrow> address \<Rightarrow> error + vault" where
  "withdrawFee_loop e s [] rcv = Inr s"
| "withdrawFee_loop e s ((tk, requested) # rest) rcv =
     (let availableFee = fees s tk;
          amt = (if availableFee < requested then availableFee else requested)
      in case transfer_amount e s rcv (tk = NATIVE e) tk amt of
           Inl err \<Rightarrow> Inl err
         | Inr s1 \<Rightarrow>
             (let s2 = emit (WithdrawFee tk amt rcv) s1 in
              case checked_sub (fees s2 tk) amt of
                Inl err \<Rightarrow> Inl err
              | Inr newFees \<Rightarrow>
                  withdrawFee_loop e (s2\<lparr>fees := (fees s2)(tk := newFees)\<rparr>) rest rcv))"

definition withdrawFee ::
  "env \<Rightarrow> vault \<Rightarrow> address list \<Rightarrow> nat list \<Rightarrow> address \<Rightarrow> error + vault" where
  "withdrawFee e s tokens amounts rcv =
     onlyRole e ADMIN_ROLE
       (if length tokens \<noteq> length amounts then Inl (Error ''illegal num'')
        else withdrawFee_loop e s (zip tokens amounts) rcv)"

section \<open>Deposits\<close>

definition deposit :: "env \<Rightarrow> vault \<Rightarrow> address \<Rightarrow> nat \<Rightarrow> nat \<Rightarrow> error + vault" where
  "deposit e s cur amt broker =
     nonReentrant s (\<lambda>s.
       if \<not> supportCurrency s cur then Inl (Error ''currency not support'')
       else if amt = 0 then Inl ZeroAmount
       else
         (let balanceBefore = custody s cur in
          case safeTransferFrom e cur (msg_sender e) amt balanceBefore of
            None \<Rightarrow> Inl (SafeERC20FailedOperation cur)
          | Some balanceAfter \<Rightarrow>
              (let s1 = s\<lparr>custody := (custody s)(cur := balanceAfter)\<rparr> in
               case checked_sub (custody s1 cur) balanceBefore of
                 Inl err \<Rightarrow> Inl err
               | Inr received \<Rightarrow>
                   Inr (emit (Deposit (msg_sender e) cur False received broker) s1))))"

text \<open>A payable call adds its value to the vault's native balance before the body runs.\<close>

definition receive_value :: "env \<Rightarrow> vault \<Rightarrow> vault" where
  "receive_value e s =
     s\<lparr>custody := (custody s)(NATIVE e := custody s (NATIVE e) + msg_value e)\<rparr>"

definition depositNative :: "env \<Rightarrow> vault \<Rightarrow> nat \<Rightarrow> error + vault" where
  "depositNative e s broker =
     nonReentrant (receive_value e s) (\<lambda>s.
       if \<not> supportCurrency s (NATIVE e) then Inl (Error ''currency not support'')
       else if \<not> msg_value e > 0 then Inl (Error ''msg.value must be greater than 0'')
       else Inr (emit (Deposit (msg_sender e) (NATIVE e) True (msg_value e) broker) s))"

definition depositFor ::
  "env \<Rightarrow> vault \<Rightarrow> address \<Rightarrow> address \<Rightarrow> nat \<Rightarrow> nat \<Rightarrow> error + vault" where
  "depositFor e s cur forAddress amt broker =
     onlyRole e DEPOSIT_ROLE
       (nonReentrant (receive_value e s) (\<lambda>s.
          if \<not> supportCurrency s cur then Inl (CurrencyNotSupport cur)
          else if amt = 0 then Inl ZeroAmount
          else if cur = NATIVE e then
            (if amt \<noteq> msg_value e then Inl (AmountIllegal amt (msg_value e))
             else Inr (emit (Deposit forAddress cur True amt broker) s))
          else if msg_value e \<noteq> 0 then Inl ValueNotZero
          else
            (let balanceBefore = custody s cur in
             case safeTransferFrom e cur (msg_sender e) amt balanceBefore of
               None \<Rightarrow> Inl (SafeERC20FailedOperation cur)
             | Some balanceAfter \<Rightarrow>
                 (let s1 = s\<lparr>custody := (custody s)(cur := balanceAfter)\<rparr> in
                  case checked_sub balanceAfter balanceBefore of
                    Inl err \<Rightarrow> Inl err
                  | Inr received \<Rightarrow>
                      if amt \<noteq> received then Inl (AmountIllegal amt received)
                      else Inr (emit (Deposit forAddress cur False amt broker) s1)))))"

definition receive_native :: "env \<Rightarrow> vault \<Rightarrow> error + vault" where
  "receive_native e s =
     (if \<not> supportCurrency s (NATIVE e) then Inl (CurrencyNotSupport (NATIVE e))
      else if msg_value e > 0 then
        Inr (emit (ReceiveETH (msg_sender e) (vault_address e) (msg_value e))
               (receive_value e s))
      else Inr (receive_value e s))"

section \<open>Valuation and the hourly limit\<close>

text \<open>
  \<^verbatim>\<open>_amountUsd\<close>: the price is the stored one, or the oracle's answer converted from
  \<^verbatim>\<open>int256\<close> to \<^verbatim>\<open>uint256\<close> (two's complement, unchecked). The products, the sum of the
  two 8-bit decimals and the power of ten are checked.
\<close>

definition amountUsd :: "env \<Rightarrow> vault \<Rightarrow> address \<Rightarrow> nat \<Rightarrow> error + nat" where
  "amountUsd e s cur amt =
     (let tk = supportToken s cur;
          prc = (if \<not> fixedPrice tk then nat (latestRoundData e (priceFeed tk) mod 2 ^ 256)
                 else price tk)
      in case checked_mul prc amt of
           Inl err \<Rightarrow> Inl err
         | Inr pa \<Rightarrow>
             (case checked_mul pa (10 ^ USD_DECIMALS) of
                Inl err \<Rightarrow> Inl err
              | Inr numerator \<Rightarrow>
                  (case checked_add_uint8 (priceDecimals tk) (currencyDecimals tk) of
                     Inl err \<Rightarrow> Inl err
                   | Inr k \<Rightarrow>
                       (case checked_exp 10 k of
                          Inl err \<Rightarrow> Inl err
                        | Inr denominator \<Rightarrow>
                            if denominator = 0 then Inl (Panic 18)
                            else Inr (numerator div denominator)))))"

definition checkLimit :: "env \<Rightarrow> vault \<Rightarrow> address \<Rightarrow> nat \<Rightarrow> error + (bool \<times> vault)" where
  "checkLimit e s cur amt =
     (case amountUsd e s cur amt of
        Inl err \<Rightarrow> Inl err
      | Inr usd \<Rightarrow>
          if usd = 0 then Inl ZeroAmount
          else
            (let cursor = block_timestamp e div 3600 in
             case checked_add (withdrawPerHours s cursor) usd of
               Inl err \<Rightarrow> Inl err
             | Inr volume \<Rightarrow>
                 if volume > hourlyLimit s then
                   (case pause_internal e s of
                      Inl err \<Rightarrow> Inl err
                    | Inr s1 \<Rightarrow>
                        Inr (False, emit (WithdrawPaused (msg_sender e) cur amt usd) s1))
                 else
                   (case checked_add (withdrawPerHours s cursor) usd of
                      Inl err \<Rightarrow> Inl err
                    | Inr newVolume \<Rightarrow>
                        Inr (True, s\<lparr>withdrawPerHours :=
                                        (withdrawPerHours s)(cursor := newVolume)\<rparr>))))"

section \<open>Withdrawals\<close>

text \<open>The committee-authorized withdrawal, \<^verbatim>\<open>withdraw(id, validators, action, signatures)\<close>.\<close>

definition withdraw ::
  "env \<Rightarrow> vault \<Rightarrow> nat \<Rightarrow> ValidatorInfo list \<Rightarrow> WithdrawAction \<Rightarrow> bytes list
     \<Rightarrow> error + vault" where
  "withdraw e s wid validators action validatorSignatures =
     whenNotPaused s (onlyRole e OPERATE_ROLE (nonReentrant s (\<lambda>s.
       if withdrawHistory s wid \<noteq> 0 then Inl (Error ''already withdraw'')
       else if \<not> supportCurrency s (token action) then Inl (Error ''currency not support'')
       else
         (case verifyValidatorSignature e s validators (withdrawDigest e wid action)
                 validatorSignatures of
            Inl err \<Rightarrow> Inl err
          | Inr u \<Rightarrow>
              (case checkLimit e s (token action) (amount action) of
                 Inl err \<Rightarrow> Inl err
               | Inr (admitted, s1) \<Rightarrow>
                   if \<not> admitted then Inr s1
                   else
                     (let s2 = s1\<lparr>withdrawHistory :=
                                    (withdrawHistory s1)(wid := block_number e)\<rparr> in
                      case transfer_with_fee e s2 (receiver action) (token action)
                             (amount action) (fee action) of
                        Inl err \<Rightarrow> Inl err
                      | Inr s3 \<Rightarrow>
                          Inr (emit (Withdraw wid (receiver action) (token action)
                                       (amount action) (fee action)) s3)))))))"

text \<open>
  The user-co-signed withdrawal,
  \<^verbatim>\<open>withdraw(tokenAddress, realFee, userRequestInfo, businessInfo, signatureInfo)\<close>.
\<close>

definition withdraw_user ::
  "env \<Rightarrow> vault \<Rightarrow> address \<Rightarrow> nat \<Rightarrow> UserRequestInfo \<Rightarrow> BusinessInfo \<Rightarrow> SignatureInfo
     \<Rightarrow> error + vault" where
  "withdraw_user e s tokenAddress realFee userRequestInfo businessInfo signatureInfo =
     whenNotPaused s (onlyRole e OPERATE_ROLE (nonReentrant s (\<lambda>s.
       if withdrawHistory s (withdrawId businessInfo) \<noteq> 0 then
         Inl (AlreadyWithdraw (withdrawId businessInfo))
       else if currency (supportToken s tokenAddress) = 0 \<or>
               currencyDecimals (supportToken s tokenAddress) \<noteq> decimals businessInfo then
         Inl (CurrencyNotSupport tokenAddress)
       else if tokenHashMap s tokenAddress \<noteq> tokenNameHash businessInfo then
         Inl (CurrencyNameNotSupport tokenAddress (tokenNameHash businessInfo))
       else if realFee > req_fee userRequestInfo then
         Inl (FeeExceeds realFee (req_fee userRequestInfo))
       else
         (case checkLimit e s tokenAddress (req_amount userRequestInfo) of
            Inl err \<Rightarrow> Inl err
          | Inr (admitted, s1) \<Rightarrow>
              if \<not> admitted then Inr s1
              else
                (case withdrawCheck e userRequestInfo businessInfo signatureInfo of
                   Inl err \<Rightarrow> Inl err
                 | Inr userDigest \<Rightarrow>
                     if userWithdrawHistory s1 userDigest \<noteq> 0 then
                       Inl (UserAlreadyWithdraw userDigest)
                     else
                       (let s2 = s1\<lparr>withdrawHistory :=
                                      (withdrawHistory s1)
                                        (withdrawId businessInfo := block_number e)\<rparr>;
                            s3 = s2\<lparr>userWithdrawHistory :=
                                      (userWithdrawHistory s2)(userDigest := block_number e)\<rparr>
                        in case transfer_with_fee e s3 (req_receiver userRequestInfo)
                                  tokenAddress (req_amount userRequestInfo) realFee of
                             Inl err \<Rightarrow> Inl err
                           | Inr s4 \<Rightarrow>
                               Inr (emit (Withdraw (withdrawId businessInfo)
                                            (req_receiver userRequestInfo) tokenAddress
                                            (req_amount userRequestInfo) realFee) s4)))))))"

definition cancelWithdraw :: "env \<Rightarrow> vault \<Rightarrow> nat \<Rightarrow> bytes32 \<Rightarrow> error + vault" where
  "cancelWithdraw e s wid userDigest =
     onlyRole e OPERATE_ROLE
       (if withdrawHistory s wid \<noteq> 0 then Inl (AlreadyWithdraw wid)
        else
          (let s1 = s\<lparr>withdrawHistory := (withdrawHistory s)(wid := block_number e)\<rparr>;
               s2 = (if userDigest \<noteq> 0 then
                       s1\<lparr>userWithdrawHistory :=
                            (userWithdrawHistory s1)(userDigest := block_number e)\<rparr>
                     else s1)
           in Inr (emit (WithdrawCanceled wid userDigest) s2)))"

section \<open>The operations of the vault\<close>

text \<open>
  The state-changing entry points of the accounting and authorization core. The two
  yield conversions (\<^verbatim>\<open>depositUSDF\<close>, \<^verbatim>\<open>depositAsBNB\<close>), initialisation and the upgrade
  hook are outside it.
\<close>

datatype operation =
    OpPause
  | OpUnpause
  | OpUpdateHourlyLimit nat
  | OpAddValidator "ValidatorInfo list"
  | OpRemoveValidator "ValidatorInfo list"
  | OpWithdrawFee "address list" "nat list" address
  | OpAddToken address address nat bool nat nat
  | OpAddTokenNamed address address nat bool nat nat string
  | OpRemoveToken address
  | OpSetTokenHash address string
  | OpDeposit address nat nat
  | OpDepositNative nat
  | OpDepositFor address address nat nat
  | OpReceive
  | OpWithdraw nat "ValidatorInfo list" WithdrawAction "bytes list"
  | OpWithdrawUser address nat UserRequestInfo BusinessInfo SignatureInfo
  | OpCancelWithdraw nat bytes32

fun exec :: "env \<Rightarrow> operation \<Rightarrow> vault \<Rightarrow> error + vault" where
  "exec e OpPause s = pause e s"
| "exec e OpUnpause s = unpause e s"
| "exec e (OpUpdateHourlyLimit n) s = updateHourlyLimit e s n"
| "exec e (OpAddValidator vs) s = addValidator e s vs"
| "exec e (OpRemoveValidator vs) s = removeValidator e s vs"
| "exec e (OpWithdrawFee tks amts rcv) s = withdrawFee e s tks amts rcv"
| "exec e (OpAddToken cur feed prc fixed pd cd) s = addToken e s cur feed prc fixed pd cd"
| "exec e (OpAddTokenNamed cur feed prc fixed pd cd nm) s =
     addToken_named e s cur feed prc fixed pd cd nm"
| "exec e (OpRemoveToken cur) s = removeToken e s cur"
| "exec e (OpSetTokenHash cur nm) s = setTokenHash e s cur nm"
| "exec e (OpDeposit cur amt broker) s = deposit e s cur amt broker"
| "exec e (OpDepositNative broker) s = depositNative e s broker"
| "exec e (OpDepositFor cur forAddress amt broker) s = depositFor e s cur forAddress amt broker"
| "exec e OpReceive s = receive_native e s"
| "exec e (OpWithdraw wid vs action sigs) s = withdraw e s wid vs action sigs"
| "exec e (OpWithdrawUser cur realFee u b sg) s = withdraw_user e s cur realFee u b sg"
| "exec e (OpCancelWithdraw wid userDigest) s = cancelWithdraw e s wid userDigest"

section \<open>A concrete vault\<close>

text \<open>
  One caller (address 1) holding every capability; a token (address 10) with six
  decimals and a fixed price of one dollar at eight price decimals; a validator set of
  total power 30; an hourly limit of 1000 dollars; withdrawal id 7 already processed.
  The token of this environment delivers 95 percent of a requested pull.
\<close>

definition env0 :: env where
  "env0 = \<lparr>msg_sender = 1, msg_value = 0, block_number = 100, block_timestamp = 7200,
     NATIVE = 999, vault_address = 500,
     hasRole = (\<lambda>r a. a = 1),
     validatorsHash = (\<lambda>vs. 1 + sum_list (map signer vs)),
     nameHash = (\<lambda>nm. 1 + length nm),
     withdrawDigest = (\<lambda>wid a. wid + amount a),
     toEthSignedMessageHash = (\<lambda>d. d + 1),
     recover = (\<lambda>d sg. case sg of [] \<Rightarrow> 0 | x # xs \<Rightarrow> x),
     oracle_decimals = (\<lambda>feed. 8),
     latestRoundData = (\<lambda>feed. 300000000),
     safeTransferFrom = (\<lambda>c f a b. Some (b + a * 95 div 100)),
     withdrawCheck = (\<lambda>u b sg. if sg = [] then Inl (Error ''invalid signature'')
                                  else Inr (1000 + withdrawId b))\<rparr>"

definition usd_token :: Token where
  "usd_token = \<lparr>currency = 10, priceFeed = 0, price = 100000000, fixedPrice = True,
     priceDecimals = 8, currencyDecimals = 6\<rparr>"

definition validators0 :: "ValidatorInfo list" where
  "validators0 = [\<lparr>signer = 2, power_v = 10\<rparr>, \<lparr>signer = 3, power_v = 20\<rparr>]"

definition vault0 :: vault where
  "vault0 = \<lparr>paused = False, entered = False, hourlyLimit = 100000000000,
     supportToken = (\<lambda>c. no_token)(10 := usd_token),
     withdrawHistory = (\<lambda>i. 0)(7 := 90),
     withdrawPerHours = (\<lambda>h. 0),
     availableValidators = (\<lambda>h. 0)(6 := 30),
     fees = (\<lambda>c. 0)(10 := 40),
     tokenHashMap = (\<lambda>c. 0)(10 := 5),
     userWithdrawHistory = (\<lambda>d. 0),
     custody = (\<lambda>c. 0)(10 := 5000000000),
     transfers = [],
     events = []\<rparr>"

text \<open>Three validators of power 10 each, and the vault with their set registered.\<close>

definition validators3 :: "ValidatorInfo list" where
  "validators3 = [\<lparr>signer = 2, power_v = 10\<rparr>, \<lparr>signer = 3, power_v = 10\<rparr>,
     \<lparr>signer = 4, power_v = 10\<rparr>]"

definition vault3 :: vault where
  "vault3 = vault0\<lparr>availableValidators := (\<lambda>h. 0)(10 := 30)\<rparr>"

text \<open>The same vault with 600 dollars already withdrawn in the current hour bucket.\<close>

definition vault1 :: vault where
  "vault1 = vault0\<lparr>withdrawPerHours := (\<lambda>h. 0)(2 := 60000000000)\<rparr>"

text \<open>That vault after a withdrawal worth 600 dollars has tripped the limiter.\<close>

definition vault1_deferred :: vault where
  "vault1_deferred = vault1\<lparr>paused := True,
     events := [Paused 1, WithdrawPaused 1 10 600000000 60000000000]\<rparr>"

text \<open>A withdrawal of 600 tokens (600 dollars) with a fee of one token, and its user-signed form.\<close>

definition action0 :: WithdrawAction where
  "action0 = \<lparr>token = 10, amount = 600000000, fee = 1000000, receiver = 77\<rparr>"

definition request0 :: UserRequestInfo where
  "request0 = \<lparr>req_amount = 600000000, req_fee = 1000000, req_receiver = 77\<rparr>"

definition business0 :: BusinessInfo where
  "business0 = \<lparr>withdrawId = 9, decimals = 6, tokenNameHash = 5\<rparr>"

text \<open>A withdrawal whose fee (6) exceeds its amount (5).\<close>

definition action_fee :: WithdrawAction where
  "action_fee = \<lparr>token = 10, amount = 5, fee = 6, receiver = 77\<rparr>"

section \<open>Auxiliary facts\<close>

lemmas example_defs = env0_def vault0_def vault1_def usd_token_def no_token_def
  validators0_def validators3_def vault3_def action0_def request0_def business0_def
  action_fee_def

lemmas guard_defs = whenNotPaused_def onlyRole_def nonReentrant_def

lemmas checked_defs = checked_add_def checked_sub_def checked_mul_def checked_exp_def
  checked_add_uint8_def

lemmas const_defs = MAX_UINT256_def MAX_UINT8_def USD_DECIMALS_def

subsection \<open>The re-entrancy status is invisible to the checks\<close>

lemma amountUsd_entered [simp]:
  "amountUsd e (s\<lparr>entered := b\<rparr>) cur amt = amountUsd e s cur amt"
  by (simp add: amountUsd_def)

lemma verify_entered [simp]:
  "verifyValidatorSignature e (s\<lparr>entered := b\<rparr>) vs d sigs =
     verifyValidatorSignature e s vs d sigs"
  by (simp add: verifyValidatorSignature_def)

lemma checkLimit_entered:
  "checkLimit e (s\<lparr>entered := b\<rparr>) cur amt =
     (case checkLimit e s cur amt of
        Inl err \<Rightarrow> Inl err
      | Inr (admitted, s1) \<Rightarrow> Inr (admitted, s1\<lparr>entered := b\<rparr>))"
  by (simp add: checkLimit_def pause_internal_def emit_def Let_def split: sum.splits)

subsection \<open>What each step leaves alone\<close>

lemma checkLimit_frame:
  "checkLimit e s cur amt = Inr (admitted, s1) \<Longrightarrow>
     withdrawHistory s1 = withdrawHistory s \<and> userWithdrawHistory s1 = userWithdrawHistory s \<and>
     fees s1 = fees s \<and> custody s1 = custody s \<and> transfers s1 = transfers s \<and>
     entered s1 = entered s"
  by (auto simp: checkLimit_def pause_internal_def emit_def Let_def split: sum.splits if_splits)

lemma transfer_with_fee_history:
  "transfer_with_fee e s rcv cur amt fe = Inr s' \<Longrightarrow> withdrawHistory s' = withdrawHistory s"
  by (auto simp: transfer_with_fee_def sendValue_def safeTransfer_def Let_def
           split: sum.splits if_splits)

lemma withdrawFee_loop_history:
  "withdrawFee_loop e s xs rcv = Inr s' \<Longrightarrow> withdrawHistory s' = withdrawHistory s"
  by (induction xs arbitrary: s)
     (auto simp: transfer_amount_def sendValue_def safeTransfer_def emit_def Let_def
           split: sum.splits if_splits)

lemma withdraw_keeps_processed:
  "0 < withdrawHistory s wid \<Longrightarrow> withdraw e s w vs action sigs = Inr s' \<Longrightarrow>
     withdrawHistory s' wid = withdrawHistory s wid"
  by (auto simp: withdraw_def guard_defs emit_def Let_def
           dest!: checkLimit_frame transfer_with_fee_history
           split: sum.splits if_splits prod.splits)

lemma withdraw_user_keeps_processed:
  "0 < withdrawHistory s wid \<Longrightarrow> withdraw_user e s cur realFee u b sg = Inr s' \<Longrightarrow>
     withdrawHistory s' wid = withdrawHistory s wid"
  by (auto simp: withdraw_user_def guard_defs emit_def Let_def
           dest!: checkLimit_frame transfer_with_fee_history
           split: sum.splits if_splits prod.splits)

lemma cancelWithdraw_keeps_processed:
  "0 < withdrawHistory s wid \<Longrightarrow> cancelWithdraw e s w d = Inr s' \<Longrightarrow>
     withdrawHistory s' wid = withdrawHistory s wid"
  by (auto simp: cancelWithdraw_def onlyRole_def emit_def Let_def split: if_splits)

lemma other_operations_history:
  "pause e s = Inr s' \<Longrightarrow> withdrawHistory s' = withdrawHistory s"
  "unpause e s = Inr s' \<Longrightarrow> withdrawHistory s' = withdrawHistory s"
  "updateHourlyLimit e s n = Inr s' \<Longrightarrow> withdrawHistory s' = withdrawHistory s"
  "addValidator e s vs = Inr s' \<Longrightarrow> withdrawHistory s' = withdrawHistory s"
  "removeValidator e s vs = Inr s' \<Longrightarrow> withdrawHistory s' = withdrawHistory s"
  "withdrawFee e s tks amts rcv = Inr s' \<Longrightarrow> withdrawHistory s' = withdrawHistory s"
  "addToken e s cur feed prc fixed pd cd = Inr s' \<Longrightarrow> withdrawHistory s' = withdrawHistory s"
  "removeToken e s cur = Inr s' \<Longrightarrow> withdrawHistory s' = withdrawHistory s"
  "setTokenHash e s cur nm = Inr s' \<Longrightarrow> withdrawHistory s' = withdrawHistory s"
  "deposit e s cur amt broker = Inr s' \<Longrightarrow> withdrawHistory s' = withdrawHistory s"
  "depositNative e s broker = Inr s' \<Longrightarrow> withdrawHistory s' = withdrawHistory s"
  "depositFor e s cur fa amt broker = Inr s' \<Longrightarrow> withdrawHistory s' = withdrawHistory s"
  "receive_native e s = Inr s' \<Longrightarrow> withdrawHistory s' = withdrawHistory s"
  by (auto simp: pause_def unpause_def pause_internal_def unpause_internal_def updateHourlyLimit_def
        addValidator_def removeValidator_def withdrawFee_def addToken_def removeToken_def
        setTokenHash_def deposit_def depositNative_def depositFor_def receive_native_def
        receive_value_def onlyRole_def nonReentrant_def emit_def Let_def
        dest: withdrawFee_loop_history
        split: sum.splits if_splits option.splits)

lemma addToken_named_history:
  "addToken_named e s cur feed prc fixed pd cd nm = Inr s' \<Longrightarrow>
     withdrawHistory s' = withdrawHistory s"
  by (auto simp: addToken_named_def onlyRole_def emit_def dest: other_operations_history(7)
        split: sum.splits if_splits)

lemma exec_keeps_processed:
  "withdrawHistory s wid \<noteq> 0 \<Longrightarrow> exec e op s = Inr s' \<Longrightarrow>
     withdrawHistory s' wid = withdrawHistory s wid"
  by (cases op)
     (auto dest: other_operations_history addToken_named_history withdraw_keeps_processed
        withdraw_user_keeps_processed cancelWithdraw_keeps_processed)

subsection \<open>The rate limiter on a computed value\<close>

lemma checkLimit_cases:
  assumes "\<not> paused s" and "amountUsd e s cur amt = Inr usd" and "usd \<noteq> 0"
    and "withdrawPerHours s (block_timestamp e div 3600) + usd \<le> MAX_UINT256"
  shows "checkLimit e s cur amt =
     (if hourlyLimit s < withdrawPerHours s (block_timestamp e div 3600) + usd then
        Inr (False, s\<lparr>paused := True,
                       events := events s @ [Paused (msg_sender e),
                                             WithdrawPaused (msg_sender e) cur amt usd]\<rparr>)
      else Inr (True, s\<lparr>withdrawPerHours := (withdrawPerHours s)
                  (block_timestamp e div 3600 :=
                     withdrawPerHours s (block_timestamp e div 3600) + usd)\<rparr>))"
  using assms
  by (simp add: checkLimit_def pause_internal_def emit_def checked_add_def Let_def)

subsection \<open>Powers of ten in 256 bits\<close>

lemma pow10_fits: "k \<le> 77 \<Longrightarrow> (10::nat) ^ k \<le> MAX_UINT256"
proof -
  assume "k \<le> 77"
  then have "(10::nat) ^ k \<le> 10 ^ 77" by (intro power_increasing) simp_all
  also have "(10::nat) ^ 77 \<le> MAX_UINT256" by (simp add: MAX_UINT256_def)
  finally show ?thesis .
qed

lemma pow10_overflows: "78 \<le> k \<Longrightarrow> \<not> (10::nat) ^ k \<le> MAX_UINT256"
proof -
  assume "78 \<le> k"
  then have "(10::nat) ^ 78 \<le> 10 ^ k" by (intro power_increasing) simp_all
  moreover have "MAX_UINT256 < (10::nat) ^ 78" by (simp add: MAX_UINT256_def)
  ultimately show ?thesis by linarith
qed

lemma mul_fits: "(a::nat) * 10 ^ USD_DECIMALS \<le> MAX_UINT256 \<Longrightarrow> a \<le> MAX_UINT256"
proof -
  assume h: "a * 10 ^ USD_DECIMALS \<le> MAX_UINT256"
  have "a \<le> a * 10 ^ USD_DECIMALS" by simp
  then show ?thesis using h by (rule order_trans)
qed

subsection \<open>The payout helper\<close>

lemma transfer_with_fee_underflow:
  "rcv \<noteq> 0 \<Longrightarrow> amt < fe \<Longrightarrow> transfer_with_fee e s rcv cur amt fe = Inl (Panic 17)"
  by (simp add: transfer_with_fee_def checked_add_def checked_sub_def Let_def)

lemma transfer_with_fee_fails:
  "amt < fe \<Longrightarrow> transfer_with_fee e s rcv cur amt fe = Inr s' \<Longrightarrow> False"
  by (simp add: transfer_with_fee_def checked_add_def checked_sub_def Let_def split: if_splits)

subsection \<open>The loops of the validator registry\<close>

lemma addValidator_loop_sum:
  "sorted_wrt (<) (lastValidator # map signer vs) \<Longrightarrow>
   totalPower + sum_list (map power_v vs) \<le> MAX_UINT256 \<Longrightarrow>
   addValidator_loop vs totalPower lastValidator = Inr (totalPower + sum_list (map power_v vs))"
  by (induction vs arbitrary: totalPower lastValidator) (auto simp: checked_add_def)

section \<open>Replay protection\<close>

text \<open>
  A committee-authorized withdrawal that returns with the id's record set has paid out:
  it was admitted by the entry guards and leaves the vault neither paused nor entered.
\<close>

lemma checkLimit_admitted_paused:
  "checkLimit e s cur amt = Inr (True, s1) \<Longrightarrow> paused s1 = paused s"
  by (auto simp: checkLimit_def pause_internal_def emit_def Let_def split: sum.splits if_splits)

lemma transfer_with_fee_paused:
  "transfer_with_fee e s rcv cur amt fe = Inr s' \<Longrightarrow> paused s' = paused s"
  by (auto simp: transfer_with_fee_def sendValue_def safeTransfer_def Let_def
           split: sum.splits if_splits)

lemma withdraw_committed_state:
  assumes "withdraw e s wid vs action sigs = Inr s1" and "withdrawHistory s1 wid \<noteq> 0"
  shows "\<not> paused s1 \<and> \<not> entered s1"
proof -
  from assms(1) have g: "\<not> paused s" "\<not> entered s"
    by (auto simp: withdraw_def guard_defs split: if_splits)
  show ?thesis
  proof (cases "withdrawHistory s wid = 0")
    case False
    with assms(1) g show ?thesis
      by (auto simp: withdraw_def guard_defs split: if_splits)
  next
    case True
    from assms(1) g obtain admitted s2
      where c: "checkLimit e s (token action) (amount action) = Inr (admitted, s2)"
      by (auto simp: withdraw_def guard_defs checkLimit_entered
            split: if_splits sum.splits prod.splits)
    show ?thesis
    proof (cases admitted)
      case False
      with assms(1) g c True have "s1 = s2\<lparr>entered := True, entered := False\<rparr>"
        by (auto simp: withdraw_def guard_defs checkLimit_entered
              split: if_splits sum.splits prod.splits)
      with checkLimit_frame [OF c] True assms(2) show ?thesis by simp
    next
      case a: True
      from c a have c': "checkLimit e s (token action) (amount action) = Inr (True, s2)"
        by simp
      have p: "\<not> paused s2" using checkLimit_admitted_paused [OF c'] g(1) by simp
      from assms(1) g c a True p show ?thesis
        by (auto simp: withdraw_def guard_defs checkLimit_entered emit_def Let_def
              dest!: transfer_with_fee_paused
              split: if_splits sum.splits prod.splits)
    qed
  qed
qed

text \<open>
  Claim C1. For every withdrawal id, once its record is non-zero the state is terminal.
  A committee-authorized withdrawal with that id fails whatever its arguments and caller,
  so the state after it, the custody balance included, is the state before it (no double
  payout); for a call admitted by the entry guards (vault not paused, caller holding the
  operate capability, no call in flight) the failure is \<^verbatim>\<open>"already withdraw"\<close>, and the
  user-co-signed withdrawal fails with \<open>AlreadyWithdraw\<close>. Cancellation of a processed
  id fails as well, with \<open>AlreadyWithdraw\<close> for a caller holding the operate capability.
  In particular, when the record was set by a committee-authorized withdrawal that has
  just returned, a second one with the same id by a caller holding the operate capability
  fails with \<^verbatim>\<open>"already withdraw"\<close>. No operation of the vault, by any caller, changes a
  non-zero record.
\<close>

theorem processed_withdrawal_terminal:
  assumes "withdrawHistory s wid \<noteq> 0"
  shows "isl (withdraw e s wid vs action sigs) \<and>
         state_after s (withdraw e s wid vs action sigs) = s \<and>
         custody (state_after s (withdraw e s wid vs action sigs)) = custody s \<and>
         (\<not> paused s \<and> hasRole e OPERATE_ROLE (msg_sender e) \<and> \<not> entered s \<longrightarrow>
            withdraw e s wid vs action sigs = Inl (Error ''already withdraw'') \<and>
            (withdrawId b = wid \<longrightarrow>
               withdraw_user e s cur realFee u b sg = Inl (AlreadyWithdraw wid))) \<and>
         (\<forall>e0 s0 vs0 action1 sigs0.
            withdraw e0 s0 wid vs0 action1 sigs0 = Inr s \<and> hasRole e OPERATE_ROLE (msg_sender e) \<longrightarrow>
              withdraw e s wid vs action sigs = Inl (Error ''already withdraw'')) \<and>
         isl (cancelWithdraw e s wid d) \<and>
         (hasRole e OPERATE_ROLE (msg_sender e) \<longrightarrow>
            cancelWithdraw e s wid d = Inl (AlreadyWithdraw wid)) \<and>
         (\<forall>e' op s'. exec e' op s = Inr s' \<longrightarrow> withdrawHistory s' wid = withdrawHistory s wid)"
proof -
  have two: "withdraw e s wid vs action sigs = Inl (Error ''already withdraw'')"
    if "withdraw e0 s0 wid vs0 action1 sigs0 = Inr s" "hasRole e OPERATE_ROLE (msg_sender e)"
    for e0 s0 vs0 action1 sigs0
    using withdraw_committed_state [OF that(1) assms] assms that(2)
    by (simp add: withdraw_def guard_defs)
  have w: "isl (withdraw e s wid vs action sigs)"
    using assms by (auto simp: withdraw_def guard_defs)
  have st: "state_after s (withdraw e s wid vs action sigs) = s"
    using w by (cases "withdraw e s wid vs action sigs") (simp_all add: state_after_def)
  have g: "withdraw e s wid vs action sigs = Inl (Error ''already withdraw'')"
    if "\<not> paused s" "hasRole e OPERATE_ROLE (msg_sender e)" "\<not> entered s"
    using assms that by (simp add: withdraw_def guard_defs)
  have gu: "withdraw_user e s cur realFee u b sg = Inl (AlreadyWithdraw wid)"
    if "\<not> paused s" "hasRole e OPERATE_ROLE (msg_sender e)" "\<not> entered s" "withdrawId b = wid"
    using assms that by (simp add: withdraw_user_def guard_defs)
  have c: "isl (cancelWithdraw e s wid d)"
    using assms by (simp add: cancelWithdraw_def onlyRole_def)
  have cr: "cancelWithdraw e s wid d = Inl (AlreadyWithdraw wid)"
    if "hasRole e OPERATE_ROLE (msg_sender e)"
    using assms that by (simp add: cancelWithdraw_def onlyRole_def)
  have inv: "\<forall>e' op s'. exec e' op s = Inr s' \<longrightarrow> withdrawHistory s' wid = withdrawHistory s wid"
    using assms exec_keeps_processed by blast
  show ?thesis
  proof (intro conjI impI allI)
    show "isl (withdraw e s wid vs action sigs)" by (rule w)
    show "state_after s (withdraw e s wid vs action sigs) = s" by (rule st)
    show "custody (state_after s (withdraw e s wid vs action sigs)) = custody s"
      using st by simp
    show "isl (cancelWithdraw e s wid d)" by (rule c)
    show "cancelWithdraw e s wid d = Inl (AlreadyWithdraw wid)"
      if "hasRole e OPERATE_ROLE (msg_sender e)" using cr that by simp
    show "withdraw e s wid vs action sigs = Inl (Error ''already withdraw'')"
      if "\<not> paused s \<and> hasRole e OPERATE_ROLE (msg_sender e) \<and> \<not> entered s"
      using g that by simp
    show "withdraw_user e s cur realFee u b sg = Inl (AlreadyWithdraw wid)"
      if "\<not> paused s \<and> hasRole e OPERATE_ROLE (msg_sender e) \<and> \<not> entered s"
        "withdrawId b = wid"
      using gu that by simp
    show "withdraw e s wid vs action sigs = Inl (Error ''already withdraw'')"
      if "withdraw e0 s0 wid vs0 action1 sigs0 = Inr s \<and> hasRole e OPERATE_ROLE (msg_sender e)"
      for e0 s0 vs0 action1 sigs0
      using two that by blast
    show "withdrawHistory s' wid = withdrawHistory s wid" if "exec e' op s = Inr s'"
      for e' op s'
      using inv that by blast
  qed
qed

text \<open>Id 7 of the concrete vault is processed: replaying it and cancelling it both fail.\<close>

theorem processed_withdrawal_terminal_witness:
  "withdrawHistory vault0 7 \<noteq> 0 \<and>
   withdraw env0 vault0 7 validators0 action0 [[2], [3]] = Inl (Error ''already withdraw'') \<and>
   custody (state_after vault0 (withdraw env0 vault0 7 validators0 action0 [[2], [3]])) 10 =
     5000000000 \<and>
   cancelWithdraw env0 vault0 7 0 = Inl (AlreadyWithdraw 7)"
proof -
  have h: "withdrawHistory vault0 7 \<noteq> 0" by (simp add: example_defs)
  have g: "\<not> paused vault0 \<and> hasRole env0 OPERATE_ROLE (msg_sender env0) \<and> \<not> entered vault0"
    by (simp add: example_defs)
  have c: "custody vault0 10 = 5000000000" by (simp add: example_defs)
  note t = processed_withdrawal_terminal [OF h, where e = env0 and vs = validators0
      and action = action0 and sigs = "[[2], [3]]" and d = 0]
  have "state_after vault0 (withdraw env0 vault0 7 validators0 action0 [[2], [3]]) = vault0"
    using t by blast
  moreover have "withdraw env0 vault0 7 validators0 action0 [[2], [3]] =
      Inl (Error ''already withdraw'')"
    using t g by blast
  moreover have "cancelWithdraw env0 vault0 7 0 = Inl (AlreadyWithdraw 7)"
    using t g by blast
  ultimately show ?thesis using h c by simp
qed

section \<open>Deposits\<close>

text \<open>
  Claim C4. For every supported currency and non-zero amount, a deposit whose pull moves
  \<open>delivered\<close> units into custody (the balance after the pull is the balance before it
  plus \<open>delivered\<close>) emits the deposit event with the amount \<open>delivered\<close>, the measured
  difference of the custody balance, whatever amount was requested: a token that
  delivers 95 of a requested 100 is credited as 95.
\<close>

theorem deposit_credits_measured_delta:
  assumes "supportCurrency s cur" and "amt \<noteq> 0" and "\<not> entered s"
    and "safeTransferFrom e cur (msg_sender e) amt (custody s cur) =
           Some (custody s cur + delivered)"
  shows "\<exists>s'. deposit e s cur amt broker = Inr s' \<and>
           events s' = events s @ [Deposit (msg_sender e) cur False delivered broker] \<and>
           custody s' cur = custody s cur + delivered"
  using assms
  by (simp add: deposit_def nonReentrant_def supportCurrency_def checked_sub_def emit_def)

text \<open>The token of the concrete environment delivers 95 of the 100 units requested.\<close>

theorem deposit_credits_measured_delta_witness:
  "supportCurrency vault0 10 \<and> (100::nat) \<noteq> 0 \<and> \<not> entered vault0 \<and>
   safeTransferFrom env0 10 (msg_sender env0) 100 (custody vault0 10) =
     Some (custody vault0 10 + 95) \<and>
   (\<exists>s'. deposit env0 vault0 10 100 0 = Inr s' \<and>
      events s' = events vault0 @ [Deposit (msg_sender env0) 10 False 95 0] \<and>
      custody s' 10 = custody vault0 10 + 95)"
proof -
  have h1: "supportCurrency vault0 10"
    by (simp add: supportCurrency_def example_defs)
  have h2: "(100::nat) \<noteq> 0" by simp
  have h3: "\<not> entered vault0" by (simp add: example_defs)
  have h4: "safeTransferFrom env0 10 (msg_sender env0) 100 (custody vault0 10) =
     Some (custody vault0 10 + 95)"
    by (simp add: example_defs)
  show ?thesis
    using h1 h3 h4 deposit_credits_measured_delta [OF h1 h2 h3 h4, of 0] by simp
qed

section \<open>Fee collection\<close>

text \<open>
  Claim C5, as the contract has it. The fee collection of one currency clamps the
  requested amount to the currency's fee pool. When the clamped amount is non-zero (the
  receiver being non-null and custody covering it) it pays the clamped amount and
  decrements the pool by it, so that requesting at least the pool pays exactly the pool
  and leaves it at zero, never negative. When the clamped amount is zero (an empty pool,
  or a zero request) the collection fails with \<open>ZeroAmount\<close>, and with a null receiver it
  fails with \<open>ZeroAddress\<close>.
\<close>

theorem withdrawFee_clamps_to_pool:
  assumes "hasRole e ADMIN_ROLE (msg_sender e)"
  shows "(rcv = 0 \<longrightarrow> withdrawFee e s [cur] [requested] rcv = Inl ZeroAddress) \<and>
         (rcv \<noteq> 0 \<and> min requested (fees s cur) = 0 \<longrightarrow>
            withdrawFee e s [cur] [requested] rcv = Inl ZeroAmount) \<and>
         (rcv \<noteq> 0 \<and> min requested (fees s cur) \<noteq> 0 \<and>
          min requested (fees s cur) \<le> custody s cur \<longrightarrow>
            (\<exists>s'. withdrawFee e s [cur] [requested] rcv = Inr s' \<and>
               transfers s' = transfers s @ [(rcv, cur, min requested (fees s cur))] \<and>
               custody s' cur = custody s cur - min requested (fees s cur) \<and>
               fees s' cur = fees s cur - min requested (fees s cur) \<and>
               events s' = events s @ [WithdrawFee cur (min requested (fees s cur)) rcv] \<and>
               (fees s cur \<le> requested \<longrightarrow> fees s' cur = 0)))"
  using assms
  by (auto simp add: withdrawFee_def onlyRole_def transfer_amount_def sendValue_def
        safeTransfer_def checked_sub_def emit_def min_def Let_def)

text \<open>A request of 50 against a pool of 40 pays 40 and empties the pool.\<close>

theorem withdrawFee_clamps_to_pool_witness:
  "hasRole env0 ADMIN_ROLE (msg_sender env0) \<and> fees vault0 10 = 40 \<and>
   (\<exists>s'. withdrawFee env0 vault0 [10] [50] 3 = Inr s' \<and>
      transfers s' = [(3, 10, 40)] \<and> fees s' 10 = 0)"
proof -
  have h: "hasRole env0 ADMIN_ROLE (msg_sender env0)" by (simp add: example_defs)
  have f: "fees vault0 10 = 40" "custody vault0 10 = 5000000000" "transfers vault0 = []"
    by (simp_all add: example_defs)
  have pre: "(3::nat) \<noteq> 0 \<and> min 50 (fees vault0 10) \<noteq> 0 \<and>
      min 50 (fees vault0 10) \<le> custody vault0 10"
    using f by simp
  have m: "min 50 (fees vault0 10) = 40" "fees vault0 10 \<le> 50" using f by simp_all
  from withdrawFee_clamps_to_pool [OF h, of 3 vault0 10 50] pre m(2)
  obtain s' where "withdrawFee env0 vault0 [10] [50] 3 = Inr s'"
    and "transfers s' = transfers vault0 @ [(3, 10, min 50 (fees vault0 10))]"
    and "fees s' 10 = 0"
    by blast
  then show ?thesis using h f m by simp
qed

text \<open>
  The claim as stated (the collection never fails on an over-request) is false: against
  an empty pool a request of 50 is clamped to zero and the collection fails.
\<close>

theorem withdrawFee_empty_pool_counterexample:
  "hasRole env0 ADMIN_ROLE (msg_sender env0) \<and> fees (vault0\<lparr>fees := (\<lambda>c. 0)\<rparr>) 10 = 0 \<and>
   withdrawFee env0 (vault0\<lparr>fees := (\<lambda>c. 0)\<rparr>) [10] [50] 3 = Inl ZeroAmount"
  by (simp add: withdrawFee_def onlyRole_def transfer_amount_def example_defs)

section \<open>Deregistration\<close>

text \<open>
  Claim C6, as the contract has it. Deregistration fails with \<open>ZeroAddress\<close> for the null
  currency and otherwise succeeds whether or not the currency is registered: it clears
  the descriptor (the currency is unsupported afterwards) and leaves every accrued fee
  balance untouched.
\<close>

theorem removeToken_clears_descriptor:
  assumes "hasRole e ADMIN_ROLE (msg_sender e)"
  shows "(cur = 0 \<longrightarrow> removeToken e s cur = Inl ZeroAddress) \<and>
         (cur \<noteq> 0 \<longrightarrow>
            removeToken e s cur =
              Inr (emit (RemoveToken cur)
                     (s\<lparr>supportToken := (supportToken s)(cur := no_token)\<rparr>)) \<and>
            \<not> supportCurrency (state_after s (removeToken e s cur)) cur \<and>
            fees (state_after s (removeToken e s cur)) = fees s)"
  using assms
  by (simp add: removeToken_def onlyRole_def state_after_def emit_def supportCurrency_def
        no_token_def)

text \<open>Removing the registered token 10 leaves it unsupported and its fees of 40 in place.\<close>

theorem removeToken_clears_descriptor_witness:
  "hasRole env0 ADMIN_ROLE (msg_sender env0) \<and> supportCurrency vault0 10 \<and>
   \<not> supportCurrency (state_after vault0 (removeToken env0 vault0 10)) 10 \<and>
   fees (state_after vault0 (removeToken env0 vault0 10)) 10 = 40"
proof -
  have h: "hasRole env0 ADMIN_ROLE (msg_sender env0)" by (simp add: example_defs)
  have f: "fees vault0 10 = 40" "supportCurrency vault0 10"
    by (simp_all add: supportCurrency_def example_defs)
  have n: "(10::nat) \<noteq> 0" by simp
  from removeToken_clears_descriptor [OF h, of 10 vault0] n
  have a: "\<not> supportCurrency (state_after vault0 (removeToken env0 vault0 10)) 10"
    and b: "fees (state_after vault0 (removeToken env0 vault0 10)) = fees vault0"
    by blast+
  show ?thesis using h f a b by simp
qed

text \<open>
  The claim as stated (deregistration of an absent currency fails) is false: currency 11
  has no descriptor, and its deregistration succeeds.
\<close>

theorem removeToken_unregistered_counterexample:
  "\<not> supportCurrency vault0 11 \<and>
   removeToken env0 vault0 11 =
     Inr (emit (RemoveToken 11) (vault0\<lparr>supportToken := (supportToken vault0)(11 := no_token)\<rparr>))"
  by (simp add: removeToken_def onlyRole_def supportCurrency_def example_defs)

section \<open>Threshold verification\<close>

subsection \<open>What the spec's matched power counts\<close>

lemma spec_matched_power_exhausted [simp]: "spec_matched_power rs [] = 0"
  by (cases rs) simp_all

text \<open>A validator whose signer was not recovered is walked past without being counted.\<close>

lemma spec_matched_power_skip:
  "signer v \<notin> set rs \<Longrightarrow> spec_matched_power rs (v # vs) = spec_matched_power rs vs"
  by (cases rs) auto

text \<open>
  Signatures of any selection of the validators, given in the order of the set, count
  exactly the powers of the selected validators.
\<close>

lemma spec_matched_power_in_order:
  "distinct (map signer vs) \<Longrightarrow>
   spec_matched_power (map signer (filter Q vs)) vs = sum_list (map power_v (filter Q vs))"
proof (induction vs)
  case Nil
  then show ?case by simp
next
  case (Cons v vs)
  show ?case
  proof (cases "Q v")
    case True
    with Cons show ?thesis by simp
  next
    case False
    have "signer v \<notin> set (map signer (filter Q vs))" using Cons.prems by auto
    then have "spec_matched_power (map signer (filter Q vs)) (v # vs) =
        spec_matched_power (map signer (filter Q vs)) vs"
      by (rule spec_matched_power_skip)
    with False Cons show ?thesis by simp
  qed
qed

lemma sum_filter_dropWhile_le:
  "sum_list (map power_v (filter Q (dropWhile P vs))) \<le> sum_list (map power_v (filter Q vs))"
  by (induction vs) auto

lemma sum_filter_mono:
  "(\<And>v. Q v \<Longrightarrow> Q' v) \<Longrightarrow>
   sum_list (map power_v (filter Q vs)) \<le> sum_list (map power_v (filter Q' vs))"
  by (induction vs) auto

text \<open>
  In any order, only validators whose signer was recovered are counted, each at most
  once.
\<close>

lemma spec_matched_power_bound:
  "spec_matched_power rs vs \<le> sum_list (map power_v (filter (\<lambda>v. signer v \<in> set rs) vs))"
proof (induction rs arbitrary: vs)
  case Nil
  then show ?case by simp
next
  case (Cons r rs)
  show ?case
  proof (cases "dropWhile (\<lambda>v. signer v \<noteq> r) vs")
    case Nil
    then show ?thesis by (simp del: dropWhile_eq_Nil_conv)
  next
    case (Cons v rest)
    then have sv: "signer v = r" using hd_dropWhile [of "\<lambda>v. signer v \<noteq> r" vs] by auto
    have "spec_matched_power rs rest
        \<le> sum_list (map power_v (filter (\<lambda>v. signer v \<in> set rs) rest))"
      by (rule Cons.IH)
    also have "\<dots> \<le> sum_list (map power_v (filter (\<lambda>v. signer v \<in> set (r # rs)) rest))"
      by (rule sum_filter_mono) simp
    finally have a: "power_v v + spec_matched_power rs rest
        \<le> sum_list (map power_v (filter (\<lambda>v. signer v \<in> set (r # rs)) (v # rest)))"
      using sv by simp
    have "sum_list (map power_v (filter (\<lambda>v. signer v \<in> set (r # rs)) (v # rest)))
        \<le> sum_list (map power_v (filter (\<lambda>v. signer v \<in> set (r # rs)) vs))"
      using sum_filter_dropWhile_le [of "\<lambda>v. signer v \<in> set (r # rs)" "\<lambda>v. signer v \<noteq> r" vs]
        Cons by simp
    with a Cons show ?thesis by simp
  qed
qed

subsection \<open>The loops of the contract compute the spec's matched power\<close>

text \<open>
  The inner loop moves the cursor behind the first validator ahead whose signer is the
  recovered one and adds that validator's power, and to the end when there is none.
\<close>

lemma find_signer_spec:
  "validatorIndex \<le> length validators \<Longrightarrow>
   (dropWhile (\<lambda>v. signer v \<noteq> r) (drop validatorIndex validators) = [] \<longrightarrow>
      find_signer validators validatorIndex r pw = Inr (length validators, pw)) \<and>
   (\<forall>v rest. dropWhile (\<lambda>v. signer v \<noteq> r) (drop validatorIndex validators) = v # rest \<longrightarrow>
      (\<exists>vi'. vi' \<le> length validators \<and> drop vi' validators = rest \<and>
         find_signer validators validatorIndex r pw =
           (case checked_add pw (power_v v) of
              Inl err \<Rightarrow> Inl err
            | Inr pw' \<Rightarrow> Inr (vi', pw'))))"
proof (induction validators validatorIndex r pw rule: find_signer.induct)
  case (1 validators validatorIndex r pw)
  show ?case
  proof (cases "validatorIndex < length validators")
    case False
    with "1.prems" show ?thesis by (subst find_signer.simps) simp
  next
    case True
    then have dr: "drop validatorIndex validators =
        validators ! validatorIndex # drop (Suc validatorIndex) validators"
      by (simp add: Cons_nth_drop_Suc)
    show ?thesis
    proof (cases "signer (validators ! validatorIndex) = r")
      case m: True
      have "find_signer validators validatorIndex r pw =
          (case checked_add pw (power_v (validators ! validatorIndex)) of
             Inl err \<Rightarrow> Inl err
           | Inr pw' \<Rightarrow> Inr (validatorIndex + 1, pw'))"
        using True m by (subst find_signer.simps) simp
      with True m dr show ?thesis
        by (auto intro!: exI [of _ "validatorIndex + 1"])
    next
      case False
      have f: "find_signer validators validatorIndex r pw =
          find_signer validators (validatorIndex + 1) r pw"
        using True False by (subst find_signer.simps) simp
      have d: "dropWhile (\<lambda>v. signer v \<noteq> r) (drop validatorIndex validators) =
          dropWhile (\<lambda>v. signer v \<noteq> r) (drop (validatorIndex + 1) validators)"
        using dr False by simp
      from "1.IH" [OF True False] True show ?thesis unfolding f d by simp
    qed
  qed
qed

text \<open>
  The outer loop returns the power accumulated so far plus the spec's matched power of
  the validators ahead of the cursor, and panics exactly when that sum leaves 256 bits.
\<close>

lemma tally_power_spec:
  "validatorIndex \<le> length validators \<Longrightarrow> pw \<le> MAX_UINT256 \<Longrightarrow>
   tally_power e validators d sigs validatorIndex pw =
     (if pw + spec_matched_power (recovered_signers e d sigs) (drop validatorIndex validators)
           \<le> MAX_UINT256
      then Inr (pw + spec_matched_power (recovered_signers e d sigs)
                       (drop validatorIndex validators))
      else Inl (Panic 17))"
proof (induction sigs arbitrary: validatorIndex pw)
  case Nil
  then show ?case by (simp add: recovered_signers_def)
next
  case (Cons sg sgs)
  show ?case
  proof (cases "validatorIndex < length validators")
    case False
    with Cons.prems show ?thesis by simp
  next
    case True
    show ?thesis
    proof (cases "recover e d sg = 0")
      case z: True
      have "recovered_signers e d (sg # sgs) = recovered_signers e d sgs"
        using z by (simp add: recovered_signers_def)
      with True z Cons.IH [OF Cons.prems] show ?thesis by simp
    next
      case nz: False
      have rs: "recovered_signers e d (sg # sgs) = recover e d sg # recovered_signers e d sgs"
        using nz by (simp add: recovered_signers_def)
      note fs = find_signer_spec [OF Cons.prems(1), of "recover e d sg" pw]
      show ?thesis
      proof (cases "dropWhile (\<lambda>v. signer v \<noteq> recover e d sg) (drop validatorIndex validators)")
        case Nil
        with fs have "find_signer validators validatorIndex (recover e d sg) pw =
            Inr (length validators, pw)" by blast
        moreover have "tally_power e validators d sgs (length validators) pw = Inr pw"
          using Cons.IH [of "length validators" pw] Cons.prems(2) by simp
        ultimately show ?thesis using True nz rs Nil Cons.prems(2)
          by (simp del: dropWhile_eq_Nil_conv)
      next
        case (Cons v rest)
        with fs obtain vi' where b: "vi' \<le> length validators"
          and dr: "drop vi' validators = rest"
          and f: "find_signer validators validatorIndex (recover e d sg) pw =
           (case checked_add pw (power_v v) of
              Inl err \<Rightarrow> Inl err
            | Inr pw' \<Rightarrow> Inr (vi', pw'))"
          by blast
        show ?thesis
        proof (cases "pw + power_v v \<le> MAX_UINT256")
          case False
          with True nz rs Cons f show ?thesis by (simp add: checked_add_def)
        next
          case ok: True
          have "tally_power e validators d sgs vi' (pw + power_v v) =
              (if pw + power_v v + spec_matched_power (recovered_signers e d sgs) rest
                   \<le> MAX_UINT256
               then Inr (pw + power_v v + spec_matched_power (recovered_signers e d sgs) rest)
               else Inl (Panic 17))"
            using Cons.IH [OF b ok] dr by simp
          with True nz rs Cons f ok show ?thesis by (simp add: checked_add_def add.assoc)
        qed
      qed
    qed
  qed
qed

text \<open>
  Claim C2. For every claimed validator set, digest and signature list, the verification
  fails with \<^verbatim>\<open>"validator illegal"\<close> (the spec's QuorumNotRegistered) when the set's
  content hash has no registered total power. Otherwise, with \<open>matched\<close> the accumulated
  matched power in the words of the spec, which is what the loops of the contract
  accumulate and which counts only validators whose signer was recovered, the
  verification fails with \<^verbatim>\<open>"validator signature illegal"\<close> (the spec's InsufficientPower)
  exactly when \<open>matched\<close> is strictly below the floor of two thirds of the total power,
  and succeeds otherwise; this holds whenever \<open>matched\<close> and twice the total fit 256 bits,
  and outside that range the checked arithmetic aborts the verification with the panic.
  The threshold is fixed: the outcome depends on the vault only through the registered
  total.
\<close>

theorem verifyValidatorSignature_threshold:
  assumes "totalPower = availableValidators s (validatorsHash e validators)"
    and "matched = spec_matched_power
           (recovered_signers e (toEthSignedMessageHash e digest) sigs) validators"
  shows "(totalPower = 0 \<longrightarrow>
            verifyValidatorSignature e s validators digest sigs =
              Inl (Error ''validator illegal'')) \<and>
         (totalPower \<noteq> 0 \<and> matched \<le> MAX_UINT256 \<and> 2 * totalPower \<le> MAX_UINT256 \<longrightarrow>
            tally_power e validators (toEthSignedMessageHash e digest) sigs 0 0 = Inr matched \<and>
            verifyValidatorSignature e s validators digest sigs =
              (if matched < 2 * totalPower div 3
               then Inl (Error ''validator signature illegal'') else Inr ())) \<and>
         (totalPower \<noteq> 0 \<and> \<not> (matched \<le> MAX_UINT256 \<and> 2 * totalPower \<le> MAX_UINT256) \<longrightarrow>
            verifyValidatorSignature e s validators digest sigs = Inl (Panic 17)) \<and>
         matched \<le> sum_list (map power_v
            (filter (\<lambda>v. signer v \<in>
                       set (recovered_signers e (toEthSignedMessageHash e digest) sigs))
               validators)) \<and>
         (\<forall>s'. availableValidators s' (validatorsHash e validators) = totalPower \<longrightarrow>
            verifyValidatorSignature e s' validators digest sigs =
              verifyValidatorSignature e s validators digest sigs)"
proof -
  have t: "tally_power e validators (toEthSignedMessageHash e digest) sigs 0 0 =
      (if matched \<le> MAX_UINT256 then Inr matched else Inl (Panic 17))"
    using tally_power_spec [of 0 validators 0 e "toEthSignedMessageHash e digest" sigs]
      assms(2)
    by simp
  have z: "verifyValidatorSignature e s validators digest sigs =
      Inl (Error ''validator illegal'')"
    if "totalPower = 0"
    using that assms(1) by (simp add: verifyValidatorSignature_def)
  have ok: "verifyValidatorSignature e s validators digest sigs =
      (if matched < 2 * totalPower div 3
       then Inl (Error ''validator signature illegal'') else Inr ())"
    if "totalPower \<noteq> 0" "matched \<le> MAX_UINT256" "2 * totalPower \<le> MAX_UINT256"
    using that assms(1) t
    by (auto simp add: verifyValidatorSignature_def checked_mul_def Let_def mult.commute)
  have bad: "verifyValidatorSignature e s validators digest sigs = Inl (Panic 17)"
    if "totalPower \<noteq> 0" "\<not> (matched \<le> MAX_UINT256 \<and> 2 * totalPower \<le> MAX_UINT256)"
    using that assms(1) t
    by (auto simp add: verifyValidatorSignature_def checked_mul_def Let_def mult.commute)
  have b: "matched \<le> sum_list (map power_v
            (filter (\<lambda>v. signer v \<in>
                       set (recovered_signers e (toEthSignedMessageHash e digest) sigs))
               validators))"
    unfolding assms(2) by (rule spec_matched_power_bound)
  have f: "verifyValidatorSignature e s' validators digest sigs =
      verifyValidatorSignature e s validators digest sigs"
    if "availableValidators s' (validatorsHash e validators) = totalPower" for s' :: vault
    using that assms(1) by (simp add: verifyValidatorSignature_def)
  show ?thesis
  proof (intro conjI impI allI)
    show "verifyValidatorSignature e s validators digest sigs =
        Inl (Error ''validator illegal'')" if "totalPower = 0"
      using z that by simp
    show "tally_power e validators (toEthSignedMessageHash e digest) sigs 0 0 = Inr matched"
      if "totalPower \<noteq> 0 \<and> matched \<le> MAX_UINT256 \<and> 2 * totalPower \<le> MAX_UINT256"
      using t that by simp
    show "verifyValidatorSignature e s validators digest sigs =
        (if matched < 2 * totalPower div 3
         then Inl (Error ''validator signature illegal'') else Inr ())"
      if "totalPower \<noteq> 0 \<and> matched \<le> MAX_UINT256 \<and> 2 * totalPower \<le> MAX_UINT256"
      using ok that by simp
    show "verifyValidatorSignature e s validators digest sigs = Inl (Panic 17)"
      if "totalPower \<noteq> 0 \<and> \<not> (matched \<le> MAX_UINT256 \<and> 2 * totalPower \<le> MAX_UINT256)"
      using bad that by simp
    show "matched \<le> sum_list (map power_v
            (filter (\<lambda>v. signer v \<in>
                       set (recovered_signers e (toEthSignedMessageHash e digest) sigs))
               validators))"
      by (rule b)
    show "verifyValidatorSignature e s' validators digest sigs =
        verifyValidatorSignature e s validators digest sigs"
      if "availableValidators s' (validatorsHash e validators) = totalPower" for s' :: vault
      using f that by simp
  qed
qed

text \<open>
  With a total power of 30 the threshold is 20. In the set of powers 10 and 20 the
  signature of the second validator alone matches 20 and suffices: the first validator,
  walked past, is not counted. In the set of three validators of power 10 the signature
  of the last one alone matches 10 and is rejected.
\<close>

theorem verifyValidatorSignature_threshold_witness:
  "(30::nat) = availableValidators vault0 (validatorsHash env0 validators0) \<and>
   (20::nat) = spec_matched_power
      (recovered_signers env0 (toEthSignedMessageHash env0 5) [[3]]) validators0 \<and>
   (30::nat) \<noteq> 0 \<and> (20::nat) \<le> MAX_UINT256 \<and> 2 * (30::nat) \<le> MAX_UINT256 \<and>
   tally_power env0 validators0 (toEthSignedMessageHash env0 5) [[3]] 0 0 = Inr 20 \<and>
   verifyValidatorSignature env0 vault0 validators0 5 [[3]] = Inr () \<and>
   (30::nat) = availableValidators vault3 (validatorsHash env0 validators3) \<and>
   (10::nat) = spec_matched_power
      (recovered_signers env0 (toEthSignedMessageHash env0 5) [[4]]) validators3 \<and>
   tally_power env0 validators3 (toEthSignedMessageHash env0 5) [[4]] 0 0 = Inr 10 \<and>
   verifyValidatorSignature env0 vault3 validators3 5 [[4]] =
     Inl (Error ''validator signature illegal'')"
proof -
  have T: "(30::nat) = availableValidators vault0 (validatorsHash env0 validators0)"
    by (simp add: example_defs)
  have M: "(20::nat) = spec_matched_power
      (recovered_signers env0 (toEthSignedMessageHash env0 5) [[3]]) validators0"
    by (simp add: recovered_signers_def example_defs)
  have T3: "(30::nat) = availableValidators vault3 (validatorsHash env0 validators3)"
    by (simp add: example_defs)
  have M3: "(10::nat) = spec_matched_power
      (recovered_signers env0 (toEthSignedMessageHash env0 5) [[4]]) validators3"
    by (simp add: recovered_signers_def example_defs)
  have r: "(30::nat) \<noteq> 0" "(20::nat) \<le> MAX_UINT256" "(10::nat) \<le> MAX_UINT256"
    "2 * (30::nat) \<le> MAX_UINT256"
    by (simp_all add: MAX_UINT256_def)
  note a = verifyValidatorSignature_threshold [OF T M, THEN conjunct2, THEN conjunct1, THEN mp]
  note b = verifyValidatorSignature_threshold [OF T3 M3, THEN conjunct2, THEN conjunct1, THEN mp]
  have a1: "tally_power env0 validators0 (toEthSignedMessageHash env0 5) [[3]] 0 0 = Inr 20"
    using a r by blast
  have "verifyValidatorSignature env0 vault0 validators0 5 [[3]] =
      (if (20::nat) < 2 * 30 div 3 then Inl (Error ''validator signature illegal'') else Inr ())"
    using a r by blast
  then have a2: "verifyValidatorSignature env0 vault0 validators0 5 [[3]] = Inr ()" by simp
  have b1: "tally_power env0 validators3 (toEthSignedMessageHash env0 5) [[4]] 0 0 = Inr 10"
    using b r by blast
  have "verifyValidatorSignature env0 vault3 validators3 5 [[4]] =
      (if (10::nat) < 2 * 30 div 3 then Inl (Error ''validator signature illegal'') else Inr ())"
    using b r by blast
  then have b2: "verifyValidatorSignature env0 vault3 validators3 5 [[4]] =
      Inl (Error ''validator signature illegal'')" by simp
  show ?thesis
    by (intro conjI T M T3 M3 r a1 a2 b1 b2)
qed

section \<open>Validator sets of total power zero\<close>

text \<open>
  Claim C9. For every validator set that passes the ordering check (signers strictly
  increasing from above the null address; the empty set is one) and whose entry powers
  sum to zero, registration by an administrator succeeds on a vault where the set's hash
  is unregistered, and stores a total power of zero, which is the value of an
  unregistered hash: registering the same set again succeeds instead of failing with
  \<^verbatim>\<open>"already set"\<close>, removing it fails with \<^verbatim>\<open>"not set"\<close>, and every verification against it
  fails with \<^verbatim>\<open>"validator illegal"\<close> (the spec's QuorumNotRegistered).
\<close>

theorem zero_power_set_stays_unregistered:
  assumes "hasRole e ADMIN_ROLE (msg_sender e)"
    and "sorted_wrt (<) (0 # map signer vs)"
    and "sum_list (map power_v vs) = 0"
    and "availableValidators s (validatorsHash e vs) = 0"
  shows "\<exists>s1. addValidator e s vs = Inr s1 \<and>
           availableValidators s1 (validatorsHash e vs) = 0 \<and>
           (\<exists>s2. addValidator e s1 vs = Inr s2) \<and>
           removeValidator e s1 vs = Inl (Error ''not set'') \<and>
           (\<forall>d sigs. verifyValidatorSignature e s1 vs d sigs =
                       Inl (Error ''validator illegal''))"
proof -
  have loop: "addValidator_loop vs 0 0 = Inr 0"
    using addValidator_loop_sum [of 0 vs 0] assms(2,3) by (simp add: MAX_UINT256_def)
  show ?thesis
    using assms(1,4) loop
    by (simp add: addValidator_def removeValidator_def verifyValidatorSignature_def
          onlyRole_def emit_def Let_def)
qed

text \<open>The empty validator set on the concrete vault.\<close>

theorem zero_power_set_stays_unregistered_witness:
  "hasRole env0 ADMIN_ROLE (msg_sender env0) \<and>
   sorted_wrt (<) (0 # map signer ([] :: ValidatorInfo list)) \<and>
   sum_list (map power_v ([] :: ValidatorInfo list)) = 0 \<and>
   availableValidators vault0 (validatorsHash env0 []) = 0 \<and>
   (\<exists>s1. addValidator env0 vault0 [] = Inr s1 \<and>
      availableValidators s1 (validatorsHash env0 []) = 0 \<and>
      (\<exists>s2. addValidator env0 s1 [] = Inr s2) \<and>
      removeValidator env0 s1 [] = Inl (Error ''not set'') \<and>
      (\<forall>d sigs. verifyValidatorSignature env0 s1 [] d sigs = Inl (Error ''validator illegal'')))"
proof -
  have h1: "hasRole env0 ADMIN_ROLE (msg_sender env0)" by (simp add: example_defs)
  have h2: "sorted_wrt (<) (0 # map signer ([] :: ValidatorInfo list))" by simp
  have h3: "sum_list (map power_v ([] :: ValidatorInfo list)) = 0" by simp
  have h4: "availableValidators vault0 (validatorsHash env0 []) = 0"
    by (simp add: example_defs)
  show ?thesis
    using h1 h2 h3 h4 zero_power_set_stays_unregistered [OF h1 h2 h3 h4] by blast
qed

section \<open>Valuation\<close>

text \<open>
  Claim C8. For every currency and amount, with \<open>prc\<close> the descriptor's fixed price when
  \<open>fixedPrice\<close> is set and the oracle's fresh answer (read as an unsigned 256-bit value)
  otherwise, and \<open>k\<close> the sum of the price decimals and the currency decimals, the
  valuation returns exactly \<open>prc * amt * 10 ^ USD_DECIMALS div 10 ^ k\<close> whenever the
  product and the power of ten fit 256 bits (the latter means \<open>k \<le> 77\<close>); otherwise it
  aborts with the arithmetic panic, so a wrapped value is never returned. A computed value
  of zero is rejected with \<open>ZeroAmount\<close> (the spec's ZeroValue) by the rate limiter, the
  valuation's only caller, right after the valuation returns.
\<close>

theorem amountUsd_exact_formula:
  assumes "prc = (if \<not> fixedPrice (supportToken s cur)
                  then nat (latestRoundData e (priceFeed (supportToken s cur)) mod 2 ^ 256)
                  else price (supportToken s cur))"
    and "k = priceDecimals (supportToken s cur) + currencyDecimals (supportToken s cur)"
  shows "(k \<le> 77 \<and> prc * amt * 10 ^ USD_DECIMALS \<le> MAX_UINT256 \<longrightarrow>
            amountUsd e s cur amt = Inr (prc * amt * 10 ^ USD_DECIMALS div 10 ^ k)) \<and>
         (\<not> (k \<le> 77 \<and> prc * amt * 10 ^ USD_DECIMALS \<le> MAX_UINT256) \<longrightarrow>
            amountUsd e s cur amt = Inl (Panic 17)) \<and>
         (amountUsd e s cur amt = Inr 0 \<longrightarrow> checkLimit e s cur amt = Inl ZeroAmount)"
proof -
  have u: "amountUsd e s cur amt =
     (case checked_mul prc amt of
           Inl err \<Rightarrow> Inl err
         | Inr pa \<Rightarrow>
             (case checked_mul pa (10 ^ USD_DECIMALS) of
                Inl err \<Rightarrow> Inl err
              | Inr numerator \<Rightarrow>
                  (case checked_add_uint8 (priceDecimals (supportToken s cur))
                          (currencyDecimals (supportToken s cur)) of
                     Inl err \<Rightarrow> Inl err
                   | Inr k \<Rightarrow>
                       (case checked_exp 10 k of
                          Inl err \<Rightarrow> Inl err
                        | Inr denominator \<Rightarrow>
                            if denominator = 0 then Inl (Panic 18)
                            else Inr (numerator div denominator)))))"
    unfolding amountUsd_def Let_def assms(1) by (rule refl)
  have ok: "amountUsd e s cur amt = Inr (prc * amt * 10 ^ USD_DECIMALS div 10 ^ k)"
    if h: "k \<le> 77" "prc * amt * 10 ^ USD_DECIMALS \<le> MAX_UINT256"
  proof -
    have a: "prc * amt \<le> MAX_UINT256" using h(2) by (rule mul_fits)
    have b: "(10::nat) ^ k \<le> MAX_UINT256" using h(1) by (rule pow10_fits)
    have c: "k \<le> MAX_UINT8" using h(1) by (simp add: MAX_UINT8_def)
    show ?thesis
      unfolding u using a b c h(2) assms(2)
      by (simp add: checked_mul_def checked_exp_def checked_add_uint8_def)
  qed
  have bad1: "amountUsd e s cur amt = Inl (Panic 17)" if h: "\<not> k \<le> 77"
  proof -
    have "\<not> (10::nat) ^ k \<le> MAX_UINT256" using h pow10_overflows [of k] by simp
    then show ?thesis
      unfolding u using assms(2)
      by (simp add: checked_mul_def checked_exp_def checked_add_uint8_def)
  qed
  have bad2: "amountUsd e s cur amt = Inl (Panic 17)"
    if h: "\<not> prc * amt * 10 ^ USD_DECIMALS \<le> MAX_UINT256"
    unfolding u using h
    by (simp add: checked_mul_def)
  have z: "checkLimit e s cur amt = Inl ZeroAmount" if "amountUsd e s cur amt = Inr 0"
    using that by (simp add: checkLimit_def)
  show ?thesis using ok bad1 bad2 z by blast
qed

text \<open>600 tokens of six decimals at one dollar are worth 600 dollars of eight decimals.\<close>

theorem amountUsd_exact_formula_witness:
  "(100000000::nat) = (if \<not> fixedPrice (supportToken vault0 10)
       then nat (latestRoundData env0 (priceFeed (supportToken vault0 10)) mod 2 ^ 256)
       else price (supportToken vault0 10)) \<and>
   (14::nat) = priceDecimals (supportToken vault0 10) + currencyDecimals (supportToken vault0 10) \<and>
   (14::nat) \<le> 77 \<and> (100000000::nat) * 600000000 * 10 ^ USD_DECIMALS \<le> MAX_UINT256 \<and>
   amountUsd env0 vault0 10 600000000 = Inr 60000000000"
proof -
  have p: "(100000000::nat) = (if \<not> fixedPrice (supportToken vault0 10)
       then nat (latestRoundData env0 (priceFeed (supportToken vault0 10)) mod 2 ^ 256)
       else price (supportToken vault0 10))"
    by (simp add: example_defs)
  have k: "(14::nat) =
      priceDecimals (supportToken vault0 10) + currencyDecimals (supportToken vault0 10)"
    by (simp add: example_defs)
  have f: "(14::nat) \<le> 77 \<and> (100000000::nat) * 600000000 * 10 ^ USD_DECIMALS \<le> MAX_UINT256"
    by (simp add: const_defs)
  have v: "(100000000::nat) * 600000000 * 10 ^ USD_DECIMALS div 10 ^ 14 = 60000000000"
    by (simp add: const_defs)
  have "amountUsd env0 vault0 10 600000000 =
      Inr (100000000 * 600000000 * 10 ^ USD_DECIMALS div 10 ^ 14)"
    using amountUsd_exact_formula [OF p k, of 600000000] f by blast
  with v have "amountUsd env0 vault0 10 600000000 = Inr 60000000000" by simp
  with p k f show ?thesis by blast
qed

section \<open>The rate limiter and the deferred withdrawal\<close>

text \<open>
  Claim C3. Whenever the valuation of the request returns a non-zero USD value \<open>usd\<close> on
  a vault that is not paused, and the current hour bucket's volume plus \<open>usd\<close> fits 256
  bits: if the sum exceeds the hourly limit, the limiter sets the pause flag (emitting the
  pause notifications), leaves the bucket's volume and everything else unchanged and
  returns false, and the committee-authorized withdrawal that reached the limiter (caller
  holding the operate capability, no call in flight, id unprocessed, currency supported,
  signatures verified) then returns without error in that very state, so that nothing but
  the pause flag and the event log has changed and the id is still unprocessed;
  otherwise the bucket's volume increases by exactly \<open>usd\<close>, nothing else changes, and the
  limiter returns true.
\<close>

theorem checkLimit_breach_defers_withdrawal:
  assumes "\<not> paused s"
    and "amountUsd e s (token action) (amount action) = Inr usd" and "usd \<noteq> 0"
    and "bucket = block_timestamp e div 3600"
    and "withdrawPerHours s bucket + usd \<le> MAX_UINT256"
  shows "(hourlyLimit s < withdrawPerHours s bucket + usd \<longrightarrow>
            checkLimit e s (token action) (amount action) =
              Inr (False, s\<lparr>paused := True,
                     events := events s @ [Paused (msg_sender e),
                        WithdrawPaused (msg_sender e) (token action) (amount action) usd]\<rparr>) \<and>
            (hasRole e OPERATE_ROLE (msg_sender e) \<and> \<not> entered s \<and>
             withdrawHistory s wid = 0 \<and> supportCurrency s (token action) \<and>
             verifyValidatorSignature e s vs (withdrawDigest e wid action) sigs = Inr () \<longrightarrow>
               withdraw e s wid vs action sigs =
                 Inr (s\<lparr>paused := True,
                        events := events s @ [Paused (msg_sender e),
                           WithdrawPaused (msg_sender e) (token action) (amount action) usd]\<rparr>) \<and>
               withdrawHistory (state_after s (withdraw e s wid vs action sigs)) wid = 0)) \<and>
         (withdrawPerHours s bucket + usd \<le> hourlyLimit s \<longrightarrow>
            checkLimit e s (token action) (amount action) =
              Inr (True, s\<lparr>withdrawPerHours :=
                     (withdrawPerHours s)(bucket := withdrawPerHours s bucket + usd)\<rparr>))"
proof -
  let ?paused = "s\<lparr>paused := True,
      events := events s @ [Paused (msg_sender e),
         WithdrawPaused (msg_sender e) (token action) (amount action) usd]\<rparr>"
  note cl = checkLimit_cases [OF assms(1,2,3) assms(5) [unfolded assms(4)]]
  have breach: "checkLimit e s (token action) (amount action) = Inr (False, ?paused)"
    if "hourlyLimit s < withdrawPerHours s bucket + usd"
    using cl that assms(4) by simp
  have admit: "checkLimit e s (token action) (amount action) =
      Inr (True, s\<lparr>withdrawPerHours :=
             (withdrawPerHours s)(bucket := withdrawPerHours s bucket + usd)\<rparr>)"
    if "withdrawPerHours s bucket + usd \<le> hourlyLimit s"
    using cl that assms(4) by simp
  have w: "withdraw e s wid vs action sigs = Inr ?paused"
    if b: "hourlyLimit s < withdrawPerHours s bucket + usd"
      and g: "hasRole e OPERATE_ROLE (msg_sender e)" "\<not> entered s"
        "withdrawHistory s wid = 0" "supportCurrency s (token action)"
        "verifyValidatorSignature e s vs (withdrawDigest e wid action) sigs = Inr ()"
  proof -
    have r: "?paused\<lparr>entered := False\<rparr> = ?paused"
      using g(2) by (cases s) simp
    show ?thesis
      using assms(1) g breach [OF b] r
      by (simp add: withdraw_def guard_defs supportCurrency_def checkLimit_entered)
  qed
  have h: "withdrawHistory (state_after s (withdraw e s wid vs action sigs)) wid = 0"
    if "withdraw e s wid vs action sigs = Inr ?paused" "withdrawHistory s wid = 0"
    using that by (simp add: state_after_def)
  show ?thesis using breach admit w h by blast
qed

text \<open>
  With a limit of 1000 dollars and 600 dollars already withdrawn in the bucket, a
  verified withdrawal worth 600 dollars pauses the vault and leaves id 8 unprocessed.
\<close>

theorem checkLimit_breach_defers_withdrawal_witness:
  "\<not> paused vault1 \<and>
   amountUsd env0 vault1 (token action0) (amount action0) = Inr 60000000000 \<and>
   (60000000000::nat) \<noteq> 0 \<and> (2::nat) = block_timestamp env0 div 3600 \<and>
   withdrawPerHours vault1 2 + 60000000000 \<le> MAX_UINT256 \<and>
   hourlyLimit vault1 < withdrawPerHours vault1 2 + 60000000000 \<and>
   withdraw env0 vault1 8 validators0 action0 [[2], [3]] =
     Inr (vault1\<lparr>paused := True,
            events := events vault1 @ [Paused (msg_sender env0),
               WithdrawPaused (msg_sender env0) (token action0) (amount action0) 60000000000]\<rparr>) \<and>
   withdrawHistory (state_after vault1 (withdraw env0 vault1 8 validators0 action0 [[2], [3]])) 8 = 0"
proof -
  have h1: "\<not> paused vault1" by (simp add: example_defs)
  have h2: "amountUsd env0 vault1 (token action0) (amount action0) = Inr 60000000000"
    by (simp add: amountUsd_def checked_defs const_defs example_defs)
  have h3: "(60000000000::nat) \<noteq> 0" by simp
  have h4: "(2::nat) = block_timestamp env0 div 3600" by (simp add: example_defs)
  have h5: "withdrawPerHours vault1 2 + 60000000000 \<le> MAX_UINT256"
    by (simp add: example_defs const_defs)
  have b: "hourlyLimit vault1 < withdrawPerHours vault1 2 + 60000000000"
    by (simp add: example_defs)
  have g: "hasRole env0 OPERATE_ROLE (msg_sender env0) \<and> \<not> entered vault1 \<and>
      withdrawHistory vault1 8 = 0 \<and> supportCurrency vault1 (token action0)"
    by (simp add: supportCurrency_def example_defs)
  have v: "verifyValidatorSignature env0 vault1 validators0 (withdrawDigest env0 8 action0)
      [[2], [3]] = Inr ()"
    by (simp add: verifyValidatorSignature_def find_signer.simps checked_defs const_defs
          example_defs)
  note t = checkLimit_breach_defers_withdrawal [OF h1 h2 h3 h4 h5,
      where wid = 8 and vs = validators0 and sigs = "[[2], [3]]"]
  have "withdraw env0 vault1 8 validators0 action0 [[2], [3]] =
     Inr (vault1\<lparr>paused := True,
            events := events vault1 @ [Paused (msg_sender env0),
               WithdrawPaused (msg_sender env0) (token action0) (amount action0) 60000000000]\<rparr>) \<and>
     withdrawHistory (state_after vault1 (withdraw env0 vault1 8 validators0 action0 [[2], [3]])) 8 = 0"
    using t b g v by blast
  with h1 h2 h3 h4 h5 b show ?thesis by blast
qed

text \<open>
  The deferred withdrawal is retryable: that call leaves the vault paused with id 8
  unprocessed; after an unpause, the same call in the next hour bucket pays 599 tokens to
  the receiver, accrues the fee of one token and marks the id with the block number.
\<close>

lemma deferred_withdrawal_retried:
  "withdraw env0 vault1 8 validators0 action0 [[2], [3]] = Inr vault1_deferred \<and>
   unpause env0 vault1_deferred =
     Inr (vault1_deferred\<lparr>paused := False,
            events := events vault1_deferred @ [Unpaused 1]\<rparr>) \<and>
   (\<exists>s'. withdraw (env0\<lparr>block_timestamp := 10800\<rparr>)
            (vault1_deferred\<lparr>paused := False, events := events vault1_deferred @ [Unpaused 1]\<rparr>)
            8 validators0 action0 [[2], [3]] = Inr s' \<and>
      withdrawHistory s' 8 = 100 \<and> withdrawPerHours s' 3 = 60000000000 \<and>
      custody s' 10 = 4401000000 \<and> fees s' 10 = 1000040 \<and>
      transfers s' = [(77, 10, 599000000)])"
  by (simp add: withdraw_def unpause_def unpause_internal_def guard_defs
        verifyValidatorSignature_def find_signer.simps checkLimit_def amountUsd_def
        pause_internal_def transfer_with_fee_def safeTransfer_def sendValue_def
        supportCurrency_def emit_def checked_defs const_defs vault1_deferred_def example_defs)

section \<open>A fee above the amount\<close>

text \<open>What the two withdrawals do once the limiter has admitted the request.\<close>

lemma withdraw_admitted:
  assumes "\<not> paused s" and "hasRole e OPERATE_ROLE (msg_sender e)" and "\<not> entered s"
    and "withdrawHistory s wid = 0" and "supportCurrency s (token action)"
    and "verifyValidatorSignature e s vs (withdrawDigest e wid action) sigs = Inr ()"
    and "checkLimit e s (token action) (amount action) = Inr (True, s1)"
  shows "withdraw e s wid vs action sigs =
     (case transfer_with_fee e
             (s1\<lparr>entered := True,
                  withdrawHistory := (withdrawHistory s1)(wid := block_number e)\<rparr>)
             (receiver action) (token action) (amount action) (fee action) of
        Inl err \<Rightarrow> Inl err
      | Inr s3 \<Rightarrow>
          Inr ((emit (Withdraw wid (receiver action) (token action) (amount action)
                        (fee action)) s3)\<lparr>entered := False\<rparr>))"
  using assms
  by (simp add: withdraw_def guard_defs supportCurrency_def checkLimit_entered Let_def
        split: sum.splits)

lemma withdraw_user_admitted:
  assumes "\<not> paused s" and "hasRole e OPERATE_ROLE (msg_sender e)" and "\<not> entered s"
    and "withdrawHistory s (withdrawId b) = 0"
    and "currency (supportToken s cur) \<noteq> 0"
    and "currencyDecimals (supportToken s cur) = decimals b"
    and "tokenHashMap s cur = tokenNameHash b"
    and "realFee \<le> req_fee u"
    and "checkLimit e s cur (req_amount u) = Inr (True, s1)"
  shows "withdraw_user e s cur realFee u b sg =
     (case withdrawCheck e u b sg of
        Inl err \<Rightarrow> Inl err
      | Inr userDigest \<Rightarrow>
          if userWithdrawHistory s1 userDigest \<noteq> 0 then Inl (UserAlreadyWithdraw userDigest)
          else
            (case transfer_with_fee e
                    (s1\<lparr>entered := True,
                         withdrawHistory :=
                           (withdrawHistory s1)(withdrawId b := block_number e),
                         userWithdrawHistory :=
                           (userWithdrawHistory s1)(userDigest := block_number e)\<rparr>)
                    (req_receiver u) cur (req_amount u) realFee of
               Inl err \<Rightarrow> Inl err
             | Inr s4 \<Rightarrow>
                 Inr ((emit (Withdraw (withdrawId b) (req_receiver u) cur (req_amount u)
                               realFee) s4)\<lparr>entered := False\<rparr>)))"
  using assms
  by (auto simp add: withdraw_user_def guard_defs checkLimit_entered Let_def
        split: sum.splits)

lemma withdraw_user_deferred:
  assumes "\<not> paused s" and "hasRole e OPERATE_ROLE (msg_sender e)" and "\<not> entered s"
    and "withdrawHistory s (withdrawId b) = 0"
    and "currency (supportToken s cur) \<noteq> 0"
    and "currencyDecimals (supportToken s cur) = decimals b"
    and "tokenHashMap s cur = tokenNameHash b"
    and "realFee \<le> req_fee u"
    and "checkLimit e s cur (req_amount u) = Inr (False, s1)"
  shows "withdraw_user e s cur realFee u b sg = Inr s1"
proof -
  have "entered s1 = entered s" using checkLimit_frame [OF assms(9)] by simp
  then have "s1\<lparr>entered := False\<rparr> = s1" using assms(3) by (cases s1) simp
  then show ?thesis
    using assms
    by (simp add: withdraw_user_def guard_defs checkLimit_entered Let_def)
qed

lemma fee_above_amount_withdraw:
  assumes "amount action < fee action"
    and "withdraw e s wid vs action sigs = Inr s'"
  shows "withdrawHistory s' = withdrawHistory s \<and> fees s' = fees s \<and>
         custody s' = custody s \<and> transfers s' = transfers s"
  using assms
  by (auto simp: withdraw_def guard_defs Let_def
        dest!: checkLimit_frame transfer_with_fee_fails
        split: sum.splits if_splits prod.splits)

lemma fee_above_amount_withdraw_user:
  assumes "req_amount u < realFee"
    and "withdraw_user e s cur realFee u b sg = Inr s'"
  shows "withdrawHistory s' = withdrawHistory s \<and> fees s' = fees s \<and>
         custody s' = custody s \<and> transfers s' = transfers s"
  using assms
  by (auto simp: withdraw_user_def guard_defs Let_def
        dest!: checkLimit_frame transfer_with_fee_fails
        split: sum.splits if_splits prod.splits)

text \<open>
  Claim C10. Both withdrawal variants require the fee not to exceed the amount. When the
  fee exceeds the amount, the payout helper called with a non-null receiver aborts with
  the arithmetic panic of its checked subtraction, and so does the whole withdrawal once
  the limiter has admitted it (in the user-co-signed variant: and the collaborator has
  returned an unused digest). Whatever happens before the helper is reached, every
  outcome of such a withdrawal that is not a failure leaves the withdrawal records, the
  fee pools, the custody balances and the outbound transfers as they were: no transfer
  occurs, no fee is accrued, and the id is not consumed.
\<close>

theorem fee_above_amount_aborts:
  "(amount action < fee action \<longrightarrow>
      (receiver action \<noteq> 0 \<longrightarrow>
         transfer_with_fee e s (receiver action) (token action) (amount action) (fee action) =
           Inl (Panic 17)) \<and>
      (\<not> paused s \<and> hasRole e OPERATE_ROLE (msg_sender e) \<and> \<not> entered s \<and>
       withdrawHistory s wid = 0 \<and> supportCurrency s (token action) \<and>
       verifyValidatorSignature e s vs (withdrawDigest e wid action) sigs = Inr () \<and>
       checkLimit e s (token action) (amount action) = Inr (True, s1) \<and>
       receiver action \<noteq> 0 \<longrightarrow>
         withdraw e s wid vs action sigs = Inl (Panic 17)) \<and>
      (\<forall>s'. withdraw e s wid vs action sigs = Inr s' \<longrightarrow>
         withdrawHistory s' = withdrawHistory s \<and> fees s' = fees s \<and>
         custody s' = custody s \<and> transfers s' = transfers s)) \<and>
   (req_amount u < realFee \<longrightarrow>
      (\<not> paused s \<and> hasRole e OPERATE_ROLE (msg_sender e) \<and> \<not> entered s \<and>
       withdrawHistory s (withdrawId b) = 0 \<and> currency (supportToken s cur) \<noteq> 0 \<and>
       currencyDecimals (supportToken s cur) = decimals b \<and>
       tokenHashMap s cur = tokenNameHash b \<and> realFee \<le> req_fee u \<and>
       checkLimit e s cur (req_amount u) = Inr (True, s2) \<and>
       withdrawCheck e u b sg = Inr userDigest \<and> userWithdrawHistory s userDigest = 0 \<and>
       req_receiver u \<noteq> 0 \<longrightarrow>
         withdraw_user e s cur realFee u b sg = Inl (Panic 17)) \<and>
      (\<forall>s'. withdraw_user e s cur realFee u b sg = Inr s' \<longrightarrow>
         withdrawHistory s' = withdrawHistory s \<and> fees s' = fees s \<and>
         custody s' = custody s \<and> transfers s' = transfers s))"
proof -
  have a: "withdraw e s wid vs action sigs = Inl (Panic 17)"
    if "amount action < fee action" "\<not> paused s" "hasRole e OPERATE_ROLE (msg_sender e)"
      "\<not> entered s" "withdrawHistory s wid = 0" "supportCurrency s (token action)"
      "verifyValidatorSignature e s vs (withdrawDigest e wid action) sigs = Inr ()"
      "checkLimit e s (token action) (amount action) = Inr (True, s1)"
      "receiver action \<noteq> 0"
    using withdraw_admitted [OF that(2-8)] that(1,9)
    by (simp add: transfer_with_fee_underflow)
  have b: "withdraw_user e s cur realFee u b sg = Inl (Panic 17)"
    if "req_amount u < realFee" "\<not> paused s" "hasRole e OPERATE_ROLE (msg_sender e)"
      "\<not> entered s" "withdrawHistory s (withdrawId b) = 0"
      "currency (supportToken s cur) \<noteq> 0"
      "currencyDecimals (supportToken s cur) = decimals b"
      "tokenHashMap s cur = tokenNameHash b" "realFee \<le> req_fee u"
      "checkLimit e s cur (req_amount u) = Inr (True, s2)"
      "withdrawCheck e u b sg = Inr userDigest" "userWithdrawHistory s userDigest = 0"
      "req_receiver u \<noteq> 0"
  proof -
    have "userWithdrawHistory s2 userDigest = 0"
      using checkLimit_frame [OF that(10)] that(12) by simp
    then show ?thesis
      using withdraw_user_admitted [OF that(2-10)] that(1,11,13)
      by (simp add: transfer_with_fee_underflow)
  qed
  have p: "receiver action \<noteq> 0 \<longrightarrow>
      transfer_with_fee e s (receiver action) (token action) (amount action) (fee action) =
        Inl (Panic 17)"
    if "amount action < fee action"
    using that by (simp add: transfer_with_fee_underflow)
  have f: "\<forall>s'. withdraw e s wid vs action sigs = Inr s' \<longrightarrow>
      withdrawHistory s' = withdrawHistory s \<and> fees s' = fees s \<and>
      custody s' = custody s \<and> transfers s' = transfers s"
    if "amount action < fee action"
    using fee_above_amount_withdraw [OF that] by blast
  have fu: "\<forall>s'. withdraw_user e s cur realFee u b sg = Inr s' \<longrightarrow>
      withdrawHistory s' = withdrawHistory s \<and> fees s' = fees s \<and>
      custody s' = custody s \<and> transfers s' = transfers s"
    if "req_amount u < realFee"
    using fee_above_amount_withdraw_user [OF that] by blast
  show ?thesis
  proof (intro conjI impI)
    assume h: "amount action < fee action"
    show "transfer_with_fee e s (receiver action) (token action) (amount action) (fee action) =
        Inl (Panic 17)" if "receiver action \<noteq> 0"
      using p [OF h] that by simp
    show "\<forall>s'. withdraw e s wid vs action sigs = Inr s' \<longrightarrow>
        withdrawHistory s' = withdrawHistory s \<and> fees s' = fees s \<and>
        custody s' = custody s \<and> transfers s' = transfers s"
      by (rule f [OF h])
    show "withdraw e s wid vs action sigs = Inl (Panic 17)"
      if "\<not> paused s \<and> hasRole e OPERATE_ROLE (msg_sender e) \<and> \<not> entered s \<and>
        withdrawHistory s wid = 0 \<and> supportCurrency s (token action) \<and>
        verifyValidatorSignature e s vs (withdrawDigest e wid action) sigs = Inr () \<and>
        checkLimit e s (token action) (amount action) = Inr (True, s1) \<and>
        receiver action \<noteq> 0"
      using a [OF h] that by simp
  next
    assume h: "req_amount u < realFee"
    show "\<forall>s'. withdraw_user e s cur realFee u b sg = Inr s' \<longrightarrow>
        withdrawHistory s' = withdrawHistory s \<and> fees s' = fees s \<and>
        custody s' = custody s \<and> transfers s' = transfers s"
      by (rule fu [OF h])
    show "withdraw_user e s cur realFee u b sg = Inl (Panic 17)"
      if "\<not> paused s \<and> hasRole e OPERATE_ROLE (msg_sender e) \<and> \<not> entered s \<and>
        withdrawHistory s (withdrawId b) = 0 \<and> currency (supportToken s cur) \<noteq> 0 \<and>
        currencyDecimals (supportToken s cur) = decimals b \<and>
        tokenHashMap s cur = tokenNameHash b \<and> realFee \<le> req_fee u \<and>
        checkLimit e s cur (req_amount u) = Inr (True, s2) \<and>
        withdrawCheck e u b sg = Inr userDigest \<and> userWithdrawHistory s userDigest = 0 \<and>
        req_receiver u \<noteq> 0"
      using b [OF h] that by simp
  qed
qed

text \<open>A verified, admitted withdrawal of 5 units with a fee of 6 aborts with the panic.\<close>

theorem fee_above_amount_aborts_witness:
  "amount action_fee < fee action_fee \<and> receiver action_fee \<noteq> 0 \<and>
   \<not> paused vault0 \<and> hasRole env0 OPERATE_ROLE (msg_sender env0) \<and> \<not> entered vault0 \<and>
   withdrawHistory vault0 8 = 0 \<and> supportCurrency vault0 (token action_fee) \<and>
   verifyValidatorSignature env0 vault0 validators0 (withdrawDigest env0 8 action_fee)
     [[2], [3]] = Inr () \<and>
   checkLimit env0 vault0 (token action_fee) (amount action_fee) =
     Inr (True, vault0\<lparr>withdrawPerHours := (withdrawPerHours vault0)(2 := 500)\<rparr>) \<and>
   withdraw env0 vault0 8 validators0 action_fee [[2], [3]] = Inl (Panic 17)"
proof -
  have h1: "amount action_fee < fee action_fee" by (simp add: example_defs)
  have h2: "receiver action_fee \<noteq> 0" by (simp add: example_defs)
  have g1: "\<not> paused vault0" by (simp add: example_defs)
  have g2: "hasRole env0 OPERATE_ROLE (msg_sender env0)" by (simp add: example_defs)
  have g3: "\<not> entered vault0" by (simp add: example_defs)
  have g4: "withdrawHistory vault0 8 = 0" by (simp add: example_defs)
  have g5: "supportCurrency vault0 (token action_fee)"
    by (simp add: supportCurrency_def example_defs)
  have v: "verifyValidatorSignature env0 vault0 validators0 (withdrawDigest env0 8 action_fee)
      [[2], [3]] = Inr ()"
    by (simp add: verifyValidatorSignature_def find_signer.simps checked_defs const_defs
          example_defs)
  have c: "checkLimit env0 vault0 (token action_fee) (amount action_fee) =
      Inr (True, vault0\<lparr>withdrawPerHours := (withdrawPerHours vault0)(2 := 500)\<rparr>)"
    by (simp add: checkLimit_def amountUsd_def pause_internal_def checked_defs const_defs
          example_defs)
  note t = fee_above_amount_aborts [where action = action_fee and e = env0 and s = vault0
      and wid = 8 and vs = validators0 and sigs = "[[2], [3]]"
      and ?s1.0 = "vault0\<lparr>withdrawPerHours := (withdrawPerHours vault0)(2 := 500)\<rparr>",
      THEN conjunct1, THEN mp, THEN conjunct2, THEN conjunct1, THEN mp]
  have w: "withdraw env0 vault0 8 validators0 action_fee [[2], [3]] = Inl (Panic 17)"
    by (rule t) (intro conjI h1 h2 g1 g2 g3 g4 g5 v c)+
  show ?thesis
    by (intro conjI h1 h2 g1 g2 g3 g4 g5 v c w)
qed

section \<open>The order of the checks of the user-co-signed withdrawal\<close>

text \<open>
  Claim C7, as the contract has it. In a user-co-signed withdrawal admitted by the entry
  guards on an unprocessed id, the token's registered decimals and name hash are compared
  with the business payload before the rate-limit gate is consulted: a mismatch fails
  with \<open>CurrencyNotSupport\<close> or \<open>CurrencyNameNotSupport\<close> whatever the limiter would do.
  The external withdraw-authorization collaborator is consulted after the gate, and only
  when the gate has admitted the request: a request that the gate defers pauses the vault
  and returns without error whatever the collaborator would answer, and an admitted
  request fails with the collaborator's error when the collaborator rejects it.
\<close>

theorem withdraw_user_check_order:
  assumes "\<not> paused s" and "hasRole e OPERATE_ROLE (msg_sender e)" and "\<not> entered s"
    and "withdrawHistory s (withdrawId b) = 0"
  shows "(currency (supportToken s cur) = 0 \<or>
          currencyDecimals (supportToken s cur) \<noteq> decimals b \<longrightarrow>
            withdraw_user e s cur realFee u b sg = Inl (CurrencyNotSupport cur)) \<and>
         (currency (supportToken s cur) \<noteq> 0 \<and>
          currencyDecimals (supportToken s cur) = decimals b \<and>
          tokenHashMap s cur \<noteq> tokenNameHash b \<longrightarrow>
            withdraw_user e s cur realFee u b sg =
              Inl (CurrencyNameNotSupport cur (tokenNameHash b))) \<and>
         (currency (supportToken s cur) \<noteq> 0 \<and>
          currencyDecimals (supportToken s cur) = decimals b \<and>
          tokenHashMap s cur = tokenNameHash b \<and> realFee \<le> req_fee u \<longrightarrow>
            (\<forall>s1. checkLimit e s cur (req_amount u) = Inr (False, s1) \<longrightarrow>
               withdraw_user e s cur realFee u b sg = Inr s1 \<and> paused s1) \<and>
            (\<forall>s1 err. checkLimit e s cur (req_amount u) = Inr (True, s1) \<and>
               withdrawCheck e u b sg = Inl err \<longrightarrow>
               withdraw_user e s cur realFee u b sg = Inl err))"
proof -
  have a: "withdraw_user e s cur realFee u b sg = Inl (CurrencyNotSupport cur)"
    if "currency (supportToken s cur) = 0 \<or> currencyDecimals (supportToken s cur) \<noteq> decimals b"
    using assms that by (auto simp add: withdraw_user_def guard_defs)
  have n: "withdraw_user e s cur realFee u b sg =
      Inl (CurrencyNameNotSupport cur (tokenNameHash b))"
    if "currency (supportToken s cur) \<noteq> 0" "currencyDecimals (supportToken s cur) = decimals b"
      "tokenHashMap s cur \<noteq> tokenNameHash b"
    using assms that by (simp add: withdraw_user_def guard_defs)
  have d: "withdraw_user e s cur realFee u b sg = Inr s1 \<and> paused s1"
    if "currency (supportToken s cur) \<noteq> 0" "currencyDecimals (supportToken s cur) = decimals b"
      "tokenHashMap s cur = tokenNameHash b" "realFee \<le> req_fee u"
      "checkLimit e s cur (req_amount u) = Inr (False, s1)" for s1
  proof -
    have "paused s1"
      using that(5)
      by (auto simp: checkLimit_def pause_internal_def emit_def Let_def
            split: sum.splits if_splits)
    then show ?thesis using withdraw_user_deferred [OF assms that] by simp
  qed
  have r: "withdraw_user e s cur realFee u b sg = Inl err"
    if "currency (supportToken s cur) \<noteq> 0" "currencyDecimals (supportToken s cur) = decimals b"
      "tokenHashMap s cur = tokenNameHash b" "realFee \<le> req_fee u"
      "checkLimit e s cur (req_amount u) = Inr (True, s1)"
      "withdrawCheck e u b sg = Inl err" for s1 err
    using withdraw_user_admitted [OF assms that(1-5)] that(6) by simp
  show ?thesis using a n d r by blast
qed

text \<open>
  On the vault with 600 dollars already withdrawn, the request worth 600 dollars carries
  no signatures: the gate defers it, and the call pauses the vault and returns.
\<close>

theorem withdraw_user_check_order_witness:
  "\<not> paused vault1 \<and> hasRole env0 OPERATE_ROLE (msg_sender env0) \<and> \<not> entered vault1 \<and>
   withdrawHistory vault1 (withdrawId business0) = 0 \<and>
   currency (supportToken vault1 10) \<noteq> 0 \<and>
   currencyDecimals (supportToken vault1 10) = decimals business0 \<and>
   tokenHashMap vault1 10 = tokenNameHash business0 \<and> (0::nat) \<le> req_fee request0 \<and>
   checkLimit env0 vault1 10 (req_amount request0) =
     Inr (False, vault1\<lparr>paused := True,
            events := [Paused 1, WithdrawPaused 1 10 600000000 60000000000]\<rparr>) \<and>
   withdraw_user env0 vault1 10 0 request0 business0 [] =
     Inr (vault1\<lparr>paused := True,
            events := [Paused 1, WithdrawPaused 1 10 600000000 60000000000]\<rparr>)"
proof -
  have g1: "\<not> paused vault1" by (simp add: example_defs)
  have g2: "hasRole env0 OPERATE_ROLE (msg_sender env0)" by (simp add: example_defs)
  have g3: "\<not> entered vault1" by (simp add: example_defs)
  have g4: "withdrawHistory vault1 (withdrawId business0) = 0" by (simp add: example_defs)
  have k: "currency (supportToken vault1 10) \<noteq> 0 \<and>
      currencyDecimals (supportToken vault1 10) = decimals business0 \<and>
      tokenHashMap vault1 10 = tokenNameHash business0 \<and> (0::nat) \<le> req_fee request0"
    by (simp add: example_defs)
  have c: "checkLimit env0 vault1 10 (req_amount request0) =
     Inr (False, vault1\<lparr>paused := True,
            events := [Paused 1, WithdrawPaused 1 10 600000000 60000000000]\<rparr>)"
    by (simp add: checkLimit_def amountUsd_def pause_internal_def emit_def checked_defs
          const_defs example_defs)
  have "withdraw_user env0 vault1 10 0 request0 business0 [] =
     Inr (vault1\<lparr>paused := True,
            events := [Paused 1, WithdrawPaused 1 10 600000000 60000000000]\<rparr>)"
    using withdraw_user_check_order [OF g1 g2 g3 g4, of 10 0 request0 "[]"] k c by blast
  with g1 g2 g3 g4 k c show ?thesis by blast
qed

text \<open>
  The claim as stated (the collaborator approves the request before the gate is
  consulted) is false: the collaborator rejects this request, which carries no
  signatures, and still the call does not fail; the gate, consulted first, pauses the
  vault and the call returns.
\<close>

theorem withdraw_user_gate_first_counterexample:
  "withdrawCheck env0 request0 business0 [] = Inl (Error ''invalid signature'') \<and>
   withdraw_user env0 vault1 10 0 request0 business0 [] =
     Inr (vault1\<lparr>paused := True,
            events := [Paused 1, WithdrawPaused 1 10 600000000 60000000000]\<rparr>)"
  by (simp add: withdraw_user_def guard_defs checkLimit_def amountUsd_def pause_internal_def
        emit_def checked_defs const_defs example_defs)


end
